theory Spec2Isabelle
  imports Main "HOL-Library.Word" "HOL-Library.AList" "HOL-Library.Monad_Syntax"
begin

unbundle bit_operations_syntax

section \<open>Common.h: scalar types\<close>

text \<open>
  \<^verbatim>\<open>VirtualPageNumber\<close> and \<^verbatim>\<open>Address\<close> are \<^verbatim>\<open>uint64_t\<close>; the performance
  counters are \<^verbatim>\<open>std::atomic<uint64_t>\<close>. They are 64-bit words, so that every
  \<^verbatim>\<open>+\<close>, \<^verbatim>\<open>++\<close> and \<^verbatim>\<open>*\<close> wraps as in the source. A host pointer
  (\<^verbatim>\<open>void *\<close>) is a natural number with \<open>0\<close> for \<^verbatim>\<open>nullptr\<close>; indices and sizes
  of containers are natural numbers.
\<close>

type_synonym u64 = "64 word"
type_synonym u32 = "32 word"
type_synonym vpn = "64 word"
type_synonym address = "64 word"
type_synonym host_ptr = nat

text \<open>\<^verbatim>\<open>std::vector::erase(begin() + i)\<close> for an index inside the vector.\<close>

definition erase_at :: "nat \<Rightarrow> 'a list \<Rightarrow> 'a list" where
  "erase_at i xs = take i xs @ drop (Suc i) xs"

lemma length_erase_at: "i < length xs \<Longrightarrow> length (erase_at i xs) < length xs"
  by (simp add: erase_at_def)

section \<open>Policies.cpp: LRUPolicy\<close>

text \<open>
  \<^verbatim>\<open>lru_queue_\<close> is a \<^verbatim>\<open>std::queue\<close>: \<^verbatim>\<open>push\<close> appends, \<^verbatim>\<open>front\<close>/\<^verbatim>\<open>pop\<close> take the
  head. \<^verbatim>\<open>active_pages_\<close> is an unordered set.
\<close>

record lru_policy =
  lru_queue :: "vpn list"
  active_pages :: "vpn set"
  lru_max_pages :: nat

definition LRUPolicy_new :: "nat \<Rightarrow> lru_policy" where
  "LRUPolicy_new max_pages =
     \<lparr>lru_queue = [], active_pages = {}, lru_max_pages = max_pages\<rparr>"

text \<open>
  \<^verbatim>\<open>on_page_access\<close> searches the queue for the page and, when it is found, runs an
  empty block: the policy is returned as it was on both branches.
\<close>

definition lru_on_page_access :: "lru_policy \<Rightarrow> vpn \<Rightarrow> lru_policy" where
  "lru_on_page_access p v = (if v \<in> set (lru_queue p) then p else p)"

text \<open>The trimming loop \<^verbatim>\<open>while (lru_queue_.size() > max_pages_)\<close>.\<close>

fun lru_trim :: "nat \<Rightarrow> vpn list \<Rightarrow> vpn set \<Rightarrow> vpn list \<times> vpn set" where
  "lru_trim m [] a = ([], a)"
| "lru_trim m (oldest # q) a =
     (if length (oldest # q) > m then lru_trim m q (a - {oldest}) else (oldest # q, a))"

definition lru_on_page_allocated :: "lru_policy \<Rightarrow> vpn \<Rightarrow> lru_policy" where
  "lru_on_page_allocated p v =
     (case lru_trim (lru_max_pages p) (lru_queue p @ [v]) (insert v (active_pages p)) of
        (q, a) \<Rightarrow> p\<lparr>lru_queue := q, active_pages := a\<rparr>)"

definition lru_on_page_freed :: "lru_policy \<Rightarrow> vpn \<Rightarrow> lru_policy" where
  "lru_on_page_freed p v = p\<lparr>active_pages := active_pages p - {v}\<rparr>"

definition lru_select_victim :: "lru_policy \<Rightarrow> vpn \<times> lru_policy" where
  "lru_select_victim p =
     (case lru_queue p of
        [] \<Rightarrow> (0, p)
      | victim # q \<Rightarrow> (victim, p\<lparr>lru_queue := q, active_pages := active_pages p - {victim}\<rparr>))"

definition lru_reset :: "lru_policy \<Rightarrow> lru_policy" where
  "lru_reset p = p\<lparr>lru_queue := [], active_pages := {}\<rparr>"

section \<open>Policies.cpp: CLOCKPolicy\<close>

record clock_entry =
  ce_vpn :: vpn
  reference_bit :: bool

record clock_policy =
  clock_hand_vec :: "clock_entry list"
  hand_pos :: nat
  clock_max_pages :: nat

definition CLOCKPolicy_new :: "nat \<Rightarrow> clock_policy" where
  "CLOCKPolicy_new max_pages =
     \<lparr>clock_hand_vec = [], hand_pos = 0, clock_max_pages = max_pages\<rparr>"

text \<open>\<^verbatim>\<open>on_page_access\<close>: the first entry of the page gets its reference bit set.\<close>

fun set_reference_bit :: "vpn \<Rightarrow> clock_entry list \<Rightarrow> clock_entry list" where
  "set_reference_bit v [] = []"
| "set_reference_bit v (e # es) =
     (if ce_vpn e = v then e\<lparr>reference_bit := True\<rparr> # es else e # set_reference_bit v es)"

definition clock_on_page_access :: "clock_policy \<Rightarrow> vpn \<Rightarrow> clock_policy" where
  "clock_on_page_access p v = p\<lparr>clock_hand_vec := set_reference_bit v (clock_hand_vec p)\<rparr>"

text \<open>The trimming loop of \<^verbatim>\<open>on_page_allocated\<close>.\<close>

function clock_trim :: "nat \<Rightarrow> clock_entry list \<Rightarrow> nat \<Rightarrow> clock_entry list \<times> nat" where
  "clock_trim m vec hand =
     (if length vec > m then
        (let hand1 = (if hand \<ge> length vec then 0 else hand);
             vec1 = erase_at hand1 vec;
             hand2 = (if hand1 \<ge> length vec1 \<and> vec1 \<noteq> [] then 0 else hand1)
         in clock_trim m vec1 hand2)
      else (vec, hand))"
  by pat_completeness auto
termination
  by (relation "measure (\<lambda>(m, vec, hand). length vec)") (auto intro!: length_erase_at)

definition clock_on_page_allocated :: "clock_policy \<Rightarrow> vpn \<Rightarrow> clock_policy" where
  "clock_on_page_allocated p v =
     (case clock_trim (clock_max_pages p)
             (clock_hand_vec p @ [\<lparr>ce_vpn = v, reference_bit = True\<rparr>]) (hand_pos p) of
        (vec, hand) \<Rightarrow> p\<lparr>clock_hand_vec := vec, hand_pos := hand\<rparr>)"

text \<open>\<^verbatim>\<open>on_page_freed\<close>: the index of the first entry of the page, if any.\<close>

fun index_of_vpn :: "vpn \<Rightarrow> clock_entry list \<Rightarrow> nat option" where
  "index_of_vpn v [] = None"
| "index_of_vpn v (e # es) =
     (if ce_vpn e = v then Some 0 else map_option Suc (index_of_vpn v es))"

definition clock_on_page_freed :: "clock_policy \<Rightarrow> vpn \<Rightarrow> clock_policy" where
  "clock_on_page_freed p v =
     (case index_of_vpn v (clock_hand_vec p) of
        None \<Rightarrow> p
      | Some i \<Rightarrow>
          (let vec = erase_at i (clock_hand_vec p)
           in p\<lparr>clock_hand_vec := vec,
                hand_pos := (if hand_pos p \<ge> length vec \<and> vec \<noteq> [] then 0 else hand_pos p)\<rparr>))"

text \<open>
  \<^verbatim>\<open>select_victim\<close>. The loop \<^verbatim>\<open>while (hand_pos_ < clock_hand_vec_.size())\<close> either
  returns from inside or clears one reference bit and advances. After the loop the source
  reads \<^verbatim>\<open>clock_hand_vec_[hand_pos_]\<close> with the hand outside the vector: that read has no
  defined result, which is the value \<open>None\<close>.
\<close>

lemma clear_reference_bit_less:
  "i < length vec \<Longrightarrow> reference_bit (vec ! i) \<Longrightarrow>
   length (filter reference_bit (vec[i := (vec ! i)\<lparr>reference_bit := False\<rparr>]))
     < length (filter reference_bit vec)"
proof (induction vec arbitrary: i)
  case Nil
  then show ?case by simp
next
  case (Cons e es)
  show ?case
  proof (cases i)
    case 0
    with Cons.prems show ?thesis by simp
  next
    case (Suc j)
    with Cons.prems Cons.IH [of j] show ?thesis by simp
  qed
qed

function clock_sweep :: "clock_entry list \<Rightarrow> nat \<Rightarrow> (vpn \<times> clock_entry list \<times> nat) option" where
  "clock_sweep vec hand =
     (if hand < length vec then
        (if \<not> reference_bit (vec ! hand) then
           (let victim = ce_vpn (vec ! hand);
                hand1 = (hand + 1) mod length vec
            in Some (victim, erase_at hand1 vec, hand1))
         else clock_sweep (vec[hand := (vec ! hand)\<lparr>reference_bit := False\<rparr>])
                ((hand + 1) mod length vec))
      else (if vec \<noteq> [] then None else Some (0, vec, hand)))"
  by pat_completeness auto
termination
  by (relation "measure (\<lambda>(vec, hand). length (filter reference_bit vec))")
     (auto intro!: clear_reference_bit_less)

definition clock_select_victim :: "clock_policy \<Rightarrow> (vpn \<times> clock_policy) option" where
  "clock_select_victim p =
     (if clock_hand_vec p = [] then Some (0, p)
      else map_option (\<lambda>(victim, vec, hand). (victim, p\<lparr>clock_hand_vec := vec, hand_pos := hand\<rparr>))
             (clock_sweep (clock_hand_vec p) (hand_pos p)))"

definition clock_reset :: "clock_policy \<Rightarrow> clock_policy" where
  "clock_reset p = p\<lparr>clock_hand_vec := [], hand_pos := 0\<rparr>"

section \<open>Common.h: the wall clock and address arithmetic\<close>

text \<open>
  \<^verbatim>\<open>get_timestamp_us()\<close> reads the wall clock. The clock is an input of the program:
  an arbitrary stream of readings, of which the state counts how many were taken.
\<close>

record wall_clock =
  readings :: "nat \<Rightarrow> u64"
  reads :: nat

definition get_timestamp_us :: "wall_clock \<Rightarrow> u64 \<times> wall_clock" where
  "get_timestamp_us w = (readings w (reads w), w\<lparr>reads := reads w + 1\<rparr>)"

text \<open>
  \<^verbatim>\<open>vaddr_to_vpn\<close>, \<^verbatim>\<open>vpn_to_vaddr\<close> and \<^verbatim>\<open>align_to_page\<close> on \<^verbatim>\<open>uint64_t\<close> and
  \<^verbatim>\<open>size_t\<close>; their callers rule out a page size of zero before they divide.
\<close>

definition vaddr_to_vpn :: "address \<Rightarrow> u64 \<Rightarrow> vpn" where
  "vaddr_to_vpn vaddr page_size = vaddr div page_size"

definition vpn_to_vaddr :: "vpn \<Rightarrow> u64 \<Rightarrow> address" where
  "vpn_to_vaddr v page_size = v * page_size"

definition align_to_page :: "u64 \<Rightarrow> u64 \<Rightarrow> u64" where
  "align_to_page sz page_size = ((sz + page_size - 1) div page_size) * page_size"

section \<open>PageTable.cpp\<close>

record page_table_entry =
  resident_on_cpu :: bool
  resident_on_gpu :: bool
  is_dirty :: bool
  is_pinned :: bool
  is_valid :: bool
  cpu_address :: host_ptr
  gpu_address :: u64
  access_timestamp_us :: u64
  access_count :: u32
  clock_hand :: "8 word"

definition PageTableEntry_new :: page_table_entry where
  "PageTableEntry_new =
     \<lparr>resident_on_cpu = False, resident_on_gpu = False, is_dirty = False,
      is_pinned = False, is_valid = False, cpu_address = 0, gpu_address = 0,
      access_timestamp_us = 0, access_count = 0, clock_hand = 0\<rparr>"

text \<open>
  \<^verbatim>\<open>entries_\<close> is an unordered map from page number to entry: an association list
  read through \<open>map_of\<close>, in which \<open>AList.update\<close> stores, \<open>AList.delete\<close> erases
  and \<open>AList.map_entry\<close> writes through the pointer that \<^verbatim>\<open>find\<close> returned.
\<close>

record page_table =
  pt_page_size :: u64
  pt_num_pages :: u64
  entries :: "(vpn \<times> page_table_entry) list"

definition PageTable_new :: "u64 \<Rightarrow> page_table" where
  "PageTable_new page_size = \<lparr>pt_page_size = page_size, pt_num_pages = 0, entries = []\<rparr>"

text \<open>\<^verbatim>\<open>initialize\<close> divides by the page size: no defined result when it is zero.\<close>

definition pt_initialize :: "page_table \<Rightarrow> u64 \<Rightarrow> page_table option" where
  "pt_initialize pt virtual_space_size =
     (if pt_page_size pt = 0 then None
      else Some (pt\<lparr>entries := [], pt_num_pages := virtual_space_size div pt_page_size pt\<rparr>))"

fun allocate_vpn_range_loop ::
  "(vpn \<times> page_table_entry) list \<Rightarrow> vpn \<Rightarrow> nat list \<Rightarrow> bool \<times> (vpn \<times> page_table_entry) list" where
  "allocate_vpn_range_loop es vpn_start [] = (True, es)"
| "allocate_vpn_range_loop es vpn_start (i # is) =
     (let v = vpn_start + of_nat i
      in if map_of es v \<noteq> None then (False, es)
         else allocate_vpn_range_loop
                (AList.update v (PageTableEntry_new\<lparr>is_valid := True\<rparr>) es) vpn_start is)"

definition allocate_vpn_range :: "page_table \<Rightarrow> vpn \<Rightarrow> u32 \<Rightarrow> bool \<times> page_table" where
  "allocate_vpn_range pt vpn_start num_pages =
     (case allocate_vpn_range_loop (entries pt) vpn_start [0..<unat num_pages] of
        (ok, es) \<Rightarrow> (ok, pt\<lparr>entries := es\<rparr>))"

fun deallocate_vpn_range_loop ::
  "(vpn \<times> page_table_entry) list \<Rightarrow> vpn \<Rightarrow> nat list \<Rightarrow> (vpn \<times> page_table_entry) list" where
  "deallocate_vpn_range_loop es vpn_start [] = es"
| "deallocate_vpn_range_loop es vpn_start (i # is) =
     deallocate_vpn_range_loop (AList.delete (vpn_start + of_nat i) es) vpn_start is"

definition deallocate_vpn_range :: "page_table \<Rightarrow> vpn \<Rightarrow> u32 \<Rightarrow> page_table" where
  "deallocate_vpn_range pt vpn_start num_pages =
     pt\<lparr>entries := deallocate_vpn_range_loop (entries pt) vpn_start [0..<unat num_pages]\<rparr>"

definition lookup_entry :: "page_table \<Rightarrow> vpn \<Rightarrow> page_table_entry option" where
  "lookup_entry pt v = map_of (entries pt) v"

text \<open>A write through the pointer to the entry of a page; nothing when it has none.\<close>

definition modify_entry ::
  "page_table \<Rightarrow> vpn \<Rightarrow> (page_table_entry \<Rightarrow> page_table_entry) \<Rightarrow> page_table" where
  "modify_entry pt v f = pt\<lparr>entries := AList.map_entry v f (entries pt)\<rparr>"

text \<open>
  The setters read the clock themselves in the source; here the reading is the
  argument \<open>now\<close>.
\<close>

definition set_cpu_resident :: "page_table \<Rightarrow> vpn \<Rightarrow> host_ptr \<Rightarrow> u64 \<Rightarrow> page_table" where
  "set_cpu_resident pt v cpu_addr now =
     modify_entry pt v
       (\<lambda>e. e\<lparr>resident_on_cpu := True, cpu_address := cpu_addr, access_timestamp_us := now\<rparr>)"

definition set_gpu_resident :: "page_table \<Rightarrow> vpn \<Rightarrow> u64 \<Rightarrow> u64 \<Rightarrow> page_table" where
  "set_gpu_resident pt v gpu_addr now =
     modify_entry pt v
       (\<lambda>e. e\<lparr>resident_on_gpu := True, gpu_address := gpu_addr, access_timestamp_us := now\<rparr>)"

definition mark_dirty :: "page_table \<Rightarrow> vpn \<Rightarrow> page_table" where
  "mark_dirty pt v = modify_entry pt v (\<lambda>e. e\<lparr>is_dirty := True\<rparr>)"

definition clear_dirty :: "page_table \<Rightarrow> vpn \<Rightarrow> page_table" where
  "clear_dirty pt v = modify_entry pt v (\<lambda>e. e\<lparr>is_dirty := False\<rparr>)"

definition update_access_time :: "page_table \<Rightarrow> vpn \<Rightarrow> u64 \<Rightarrow> page_table" where
  "update_access_time pt v now =
     modify_entry pt v
       (\<lambda>e. e\<lparr>access_timestamp_us := now, access_count := access_count e + 1\<rparr>)"

definition get_all_entries :: "page_table \<Rightarrow> (vpn \<times> page_table_entry) list" where
  "get_all_entries pt = filter (\<lambda>(v, e). is_valid e) (entries pt)"

definition pt_clear :: "page_table \<Rightarrow> page_table" where
  "pt_clear pt = pt\<lparr>entries := []\<rparr>"

section \<open>PageAllocator.cpp\<close>

text \<open>
  The two pools: an occupancy bitmap each, and the counters of allocated pages. The host
  pool is the block that \<^verbatim>\<open>malloc\<close> returned, of which only the base address matters
  here; the device pool is the address range from \<^verbatim>\<open>0x100000000\<close>. The contents of the
  pools are not part of the model.
\<close>

record page_allocator =
  a_page_size :: nat
  cpu_page_pool_size :: nat
  gpu_page_pool_size :: nat
  cpu_pages_allocated :: u64
  gpu_pages_allocated :: u64
  cpu_pool :: host_ptr
  cpu_page_bitmap :: "bool list"
  gpu_page_bitmap :: "bool list"

definition PageAllocator_new :: "nat \<Rightarrow> nat \<Rightarrow> nat \<Rightarrow> page_allocator" where
  "PageAllocator_new page_size cpu_size gpu_size =
     \<lparr>a_page_size = page_size, cpu_page_pool_size = cpu_size, gpu_page_pool_size = gpu_size,
      cpu_pages_allocated = 0, gpu_pages_allocated = 0, cpu_pool = 0,
      cpu_page_bitmap = [], gpu_page_bitmap = []\<rparr>"

text \<open>
  \<^verbatim>\<open>initialize\<close>: \<open>base\<close> is what \<^verbatim>\<open>malloc\<close> returns. A null pointer makes the source
  throw, and a page size of zero makes it divide by zero: no result in both cases.
  \<^verbatim>\<open>resize\<close> keeps the bits a bitmap already has.
\<close>

definition resize_bitmap :: "bool list \<Rightarrow> nat \<Rightarrow> bool list" where
  "resize_bitmap bm n = take n bm @ replicate (n - length bm) False"

definition pa_initialize :: "page_allocator \<Rightarrow> host_ptr \<Rightarrow> page_allocator option" where
  "pa_initialize a base =
     (if a_page_size a = 0 then None
      else if base = 0 then None
      else Some (a\<lparr>cpu_pool := base,
                    cpu_page_bitmap :=
                      resize_bitmap (cpu_page_bitmap a) (cpu_page_pool_size a div a_page_size a),
                    gpu_page_bitmap :=
                      resize_bitmap (gpu_page_bitmap a) (gpu_page_pool_size a div a_page_size a)\<rparr>))"

text \<open>The linear scan for the first clear bit.\<close>

fun first_free :: "bool list \<Rightarrow> nat option" where
  "first_free [] = None"
| "first_free (b # bs) = (if \<not> b then Some 0 else map_option Suc (first_free bs))"

definition allocate_cpu_page :: "page_allocator \<Rightarrow> host_ptr \<times> page_allocator" where
  "allocate_cpu_page a =
     (case first_free (cpu_page_bitmap a) of
        None \<Rightarrow> (0, a)
      | Some i \<Rightarrow>
          (cpu_pool a + i * a_page_size a,
           a\<lparr>cpu_page_bitmap := (cpu_page_bitmap a)[i := True],
             cpu_pages_allocated := cpu_pages_allocated a + 1\<rparr>))"

text \<open>
  \<^verbatim>\<open>deallocate_cpu_page\<close>: the offset is a signed difference of pointers. The division
  by the page size is reached only by a pointer inside the pool.
\<close>

definition deallocate_cpu_page :: "page_allocator \<Rightarrow> host_ptr \<Rightarrow> page_allocator option" where
  "deallocate_cpu_page a ptr =
     (if ptr = 0 then Some a
      else
        (let offset = int ptr - int (cpu_pool a)
         in if offset < 0 \<or> offset \<ge> int (cpu_page_pool_size a) then Some a
            else if a_page_size a = 0 then None
            else
              (let page_idx = nat offset div a_page_size a
               in if page_idx < length (cpu_page_bitmap a) \<and> cpu_page_bitmap a ! page_idx
                  then Some (a\<lparr>cpu_page_bitmap := (cpu_page_bitmap a)[page_idx := False],
                                cpu_pages_allocated := cpu_pages_allocated a - 1\<rparr>)
                  else Some a)))"

definition gpu_base :: u64 where
  "gpu_base = 0x100000000"

definition allocate_gpu_page :: "page_allocator \<Rightarrow> u64 \<times> page_allocator" where
  "allocate_gpu_page a =
     (case first_free (gpu_page_bitmap a) of
        None \<Rightarrow> (0, a)
      | Some i \<Rightarrow>
          (gpu_base + of_nat (i * a_page_size a),
           a\<lparr>gpu_page_bitmap := (gpu_page_bitmap a)[i := True],
             gpu_pages_allocated := gpu_pages_allocated a + 1\<rparr>))"

definition deallocate_gpu_page :: "page_allocator \<Rightarrow> u64 \<Rightarrow> page_allocator option" where
  "deallocate_gpu_page a gpu_addr =
     (if gpu_addr < gpu_base then Some a
      else if a_page_size a = 0 then None
      else
        (let page_idx = unat (gpu_addr - gpu_base) div a_page_size a
         in if page_idx < length (gpu_page_bitmap a) \<and> gpu_page_bitmap a ! page_idx
            then Some (a\<lparr>gpu_page_bitmap := (gpu_page_bitmap a)[page_idx := False],
                          gpu_pages_allocated := gpu_pages_allocated a - 1\<rparr>)
            else Some a))"

definition get_available_cpu_pages :: "page_allocator \<Rightarrow> u64" where
  "get_available_cpu_pages a = of_nat (length (cpu_page_bitmap a)) - cpu_pages_allocated a"

definition get_available_gpu_pages :: "page_allocator \<Rightarrow> u64" where
  "get_available_gpu_pages a = of_nat (length (gpu_page_bitmap a)) - gpu_pages_allocated a"

section \<open>TLB.cpp\<close>

record tlb_entry =
  te_vpn :: vpn
  te_cpu_address :: host_ptr
  te_gpu_address :: u64
  te_timestamp :: u64
  te_valid :: bool

record tlb =
  tlb_size :: nat
  associativity :: nat
  tlb_sets :: "tlb_entry list list"
  tlb_hits :: u64
  tlb_misses :: u64

definition TLB_new :: "nat \<Rightarrow> nat \<Rightarrow> tlb" where
  "TLB_new sz assoc =
     \<lparr>tlb_size = sz, associativity = assoc, tlb_sets = [], tlb_hits = 0, tlb_misses = 0\<rparr>"

text \<open>\<^verbatim>\<open>hash_vpn\<close>: eight rounds over the bytes of the page number, on \<^verbatim>\<open>uint32_t\<close>.\<close>

fun hash_vpn_loop :: "vpn \<Rightarrow> u32 \<Rightarrow> nat list \<Rightarrow> u32" where
  "hash_vpn_loop v h [] = h"
| "hash_vpn_loop v h (i # is) =
     hash_vpn_loop v ((h XOR ucast (drop_bit (i * 8) v AND 0xFF)) * 16777619) is"

definition hash_vpn :: "vpn \<Rightarrow> u32" where
  "hash_vpn v = hash_vpn_loop v 2166136261 [0..<8]"

text \<open>
  \<^verbatim>\<open>initialize\<close> and \<^verbatim>\<open>get_set_index\<close> divide by the associativity and by the number
  of sets; \<^verbatim>\<open>invalidate\<close> indexes the vector of sets. Where the divisor is zero or the index
  is outside the vector there is no result.
\<close>

definition tlb_initialize :: "tlb \<Rightarrow> tlb option" where
  "tlb_initialize t =
     (if associativity t = 0 then None
      else Some (t\<lparr>tlb_sets :=
                     take (tlb_size t div associativity t) (tlb_sets t)
                       @ replicate (tlb_size t div associativity t - length (tlb_sets t)) []\<rparr>))"

definition get_set_index :: "tlb \<Rightarrow> vpn \<Rightarrow> nat option" where
  "get_set_index t v =
     (if associativity t = 0 then None
      else if tlb_size t div associativity t = 0 then None
      else Some (unat (hash_vpn v) mod (tlb_size t div associativity t)))"

fun erase_first_vpn :: "vpn \<Rightarrow> tlb_entry list \<Rightarrow> tlb_entry list" where
  "erase_first_vpn v [] = []"
| "erase_first_vpn v (e # es) = (if te_vpn e = v then es else e # erase_first_vpn v es)"

definition tlb_invalidate :: "tlb \<Rightarrow> vpn \<Rightarrow> tlb option" where
  "tlb_invalidate t v =
     (case get_set_index t v of
        None \<Rightarrow> None
      | Some set_idx \<Rightarrow>
          (if set_idx < length (tlb_sets t)
           then Some (t\<lparr>tlb_sets := (tlb_sets t)[set_idx := erase_first_vpn v (tlb_sets t ! set_idx)]\<rparr>)
           else None))"

definition tlb_flush :: "tlb \<Rightarrow> tlb" where
  "tlb_flush t = t\<lparr>tlb_sets := map (\<lambda>s. []) (tlb_sets t)\<rparr>"

section \<open>MigrationManager.cpp: the synchronous migrations\<close>

text \<open>
  Both functions work on the page table the manager points to and read the clock at their
  start and at their end; \<open>start_us\<close> and \<open>end_us\<close> are those two readings. The result
  is the elapsed time and the page table. (The worker threads serve only the asynchronous
  calls, which the manager's owner never makes.)
\<close>

definition migrate_cpu_to_gpu ::
  "page_table \<Rightarrow> vpn \<Rightarrow> host_ptr \<Rightarrow> u64 \<Rightarrow> u64 \<Rightarrow> u64 \<Rightarrow> u64 \<times> page_table" where
  "migrate_cpu_to_gpu pt v cpu_addr gpu_addr start_us end_us =
     (if cpu_addr = 0 then (0, pt)
      else if lookup_entry pt v = None then (0, pt)
      else (end_us - start_us,
            modify_entry pt v
              (\<lambda>e. e\<lparr>resident_on_gpu := True, gpu_address := gpu_addr, is_dirty := False\<rparr>)))"

definition migrate_gpu_to_cpu ::
  "page_table \<Rightarrow> vpn \<Rightarrow> u64 \<Rightarrow> host_ptr \<Rightarrow> u64 \<Rightarrow> u64 \<Rightarrow> u64 \<times> page_table" where
  "migrate_gpu_to_cpu pt v gpu_addr cpu_addr start_us end_us =
     (if cpu_addr = 0 \<or> gpu_addr = 0 then (0, pt)
      else (end_us - start_us,
            modify_entry pt v (\<lambda>e. e\<lparr>resident_on_cpu := True, cpu_address := cpu_addr\<rparr>)))"

section \<open>VirtualMemoryManager: the state of the singleton\<close>

record perf_counters =
  total_page_faults :: u64
  cpu_to_gpu_migrations :: u64
  gpu_to_cpu_migrations :: u64
  total_bytes_migrated :: u64
  total_migration_time_us :: u64
  pc_tlb_hits :: u64
  pc_tlb_misses :: u64
  evictions :: u64
  kernel_launches :: u64
  page_prefetches :: u64

definition PerfCounters_zero :: perf_counters where
  "PerfCounters_zero =
     \<lparr>total_page_faults = 0, cpu_to_gpu_migrations = 0, gpu_to_cpu_migrations = 0,
      total_bytes_migrated = 0, total_migration_time_us = 0, pc_tlb_hits = 0,
      pc_tlb_misses = 0, evictions = 0, kernel_launches = 0, page_prefetches = 0\<rparr>"

datatype page_replacement_policy = LRU | CLOCK

text \<open>\<^verbatim>\<open>VMConfig\<close>, without the log level (logging is not part of the model).\<close>

record vm_config =
  page_size :: u64
  virtual_address_space :: u64
  gpu_memory :: u64
  cfg_tlb_size :: u64
  cfg_tlb_associativity :: u64
  replacement_policy :: page_replacement_policy
  use_pinned_memory :: bool
  use_gpu_simulator :: bool
  enable_prefetch :: bool

text \<open>The object behind \<^verbatim>\<open>std::unique_ptr<ReplacementPolicy>\<close>: one of the two classes.\<close>

datatype policy = LRUPolicy lru_policy | CLOCKPolicy clock_policy

definition policy_on_page_access :: "policy \<Rightarrow> vpn \<Rightarrow> policy" where
  "policy_on_page_access p v =
     (case p of LRUPolicy l \<Rightarrow> LRUPolicy (lru_on_page_access l v)
              | CLOCKPolicy c \<Rightarrow> CLOCKPolicy (clock_on_page_access c v))"

definition policy_on_page_allocated :: "policy \<Rightarrow> vpn \<Rightarrow> policy" where
  "policy_on_page_allocated p v =
     (case p of LRUPolicy l \<Rightarrow> LRUPolicy (lru_on_page_allocated l v)
              | CLOCKPolicy c \<Rightarrow> CLOCKPolicy (clock_on_page_allocated c v))"

definition policy_on_page_freed :: "policy \<Rightarrow> vpn \<Rightarrow> policy" where
  "policy_on_page_freed p v =
     (case p of LRUPolicy l \<Rightarrow> LRUPolicy (lru_on_page_freed l v)
              | CLOCKPolicy c \<Rightarrow> CLOCKPolicy (clock_on_page_freed c v))"

definition policy_select_victim :: "policy \<Rightarrow> (vpn \<times> policy) option" where
  "policy_select_victim p =
     (case p of
        LRUPolicy l \<Rightarrow> (case lru_select_victim l of (v, l') \<Rightarrow> Some (v, LRUPolicy l'))
      | CLOCKPolicy c \<Rightarrow> map_option (\<lambda>(v, c'). (v, CLOCKPolicy c')) (clock_select_victim c))"

text \<open>
  The members of the class. The five subsystems exist between \<^verbatim>\<open>initialize\<close> and
  \<^verbatim>\<open>shutdown\<close>; their fields mean nothing while \<open>initialized\<close> is false. Two inputs of
  the program are kept with the state: the wall clock, and \<open>ledger_begin\<close>, the element
  that \<^verbatim>\<open>gpu_resident_pages_.begin()\<close> names for each content of the unordered set (the
  iteration order of the container is the implementation's choice).
\<close>

record vmm =
  initialized :: bool
  config :: vm_config
  perf :: perf_counters
  vm_page_table :: page_table
  vm_allocator :: page_allocator
  vm_tlb :: tlb
  vm_policy :: policy
  next_vpn :: vpn
  vaddr_to_vpn_map :: "(address \<times> vpn) list"
  gpu_resident_pages :: "vpn set"
  wall :: wall_clock
  ledger_begin :: "vpn set \<Rightarrow> vpn"

text \<open>The singleton as constructed: not initialized, counters at zero, containers empty.\<close>

definition vmm_new :: "wall_clock \<Rightarrow> (vpn set \<Rightarrow> vpn) \<Rightarrow> vm_config \<Rightarrow> vmm" where
  "vmm_new w b cfg =
     \<lparr>initialized = False, config = cfg, perf = PerfCounters_zero,
      vm_page_table = PageTable_new 0, vm_allocator = PageAllocator_new 0 0 0,
      vm_tlb = TLB_new 0 0, vm_policy = LRUPolicy (LRUPolicy_new 0), next_vpn = 0,
      vaddr_to_vpn_map = [], gpu_resident_pages = {}, wall = w, ledger_begin = b\<rparr>"

text \<open>Reading the clock, and the three counter updates that follow every migration.\<close>

definition tick :: "vmm \<Rightarrow> u64 \<times> vmm" where
  "tick s = (case get_timestamp_us (wall s) of (now, w) \<Rightarrow> (now, s\<lparr>wall := w\<rparr>))"

definition count_cpu_to_gpu :: "u64 \<Rightarrow> vmm \<Rightarrow> vmm" where
  "count_cpu_to_gpu mig_time s =
     s\<lparr>perf := (perf s)
          \<lparr>cpu_to_gpu_migrations := cpu_to_gpu_migrations (perf s) + 1,
           total_bytes_migrated := total_bytes_migrated (perf s) + page_size (config s),
           total_migration_time_us := total_migration_time_us (perf s) + mig_time\<rparr>\<rparr>"

definition count_gpu_to_cpu :: "u64 \<Rightarrow> vmm \<Rightarrow> vmm" where
  "count_gpu_to_cpu mig_time s =
     s\<lparr>perf := (perf s)
          \<lparr>gpu_to_cpu_migrations := gpu_to_cpu_migrations (perf s) + 1,
           total_bytes_migrated := total_bytes_migrated (perf s) + page_size (config s),
           total_migration_time_us := total_migration_time_us (perf s) + mig_time\<rparr>\<rparr>"

text \<open>
  A call of the migration manager from the manager. The clock is read where the source
  reads it: \<^verbatim>\<open>migrate_cpu_to_gpu\<close> returns before its first reading for a null host
  address, and between its two readings when the page has no entry;
  \<^verbatim>\<open>migrate_gpu_to_cpu\<close> returns before its first reading when either address is null.
\<close>

definition vm_migrate_cpu_to_gpu :: "vmm \<Rightarrow> vpn \<Rightarrow> host_ptr \<Rightarrow> u64 \<Rightarrow> u64 \<times> vmm" where
  "vm_migrate_cpu_to_gpu s v cpu_addr gpu_addr =
     (if cpu_addr = 0 then (0, s)
      else
        (case tick s of (start_us, s1) \<Rightarrow>
         if lookup_entry (vm_page_table s1) v = None then (0, s1)
         else
           (case tick s1 of (end_us, s2) \<Rightarrow>
            case migrate_cpu_to_gpu (vm_page_table s2) v cpu_addr gpu_addr start_us end_us of
              (mig_time, pt) \<Rightarrow> (mig_time, s2\<lparr>vm_page_table := pt\<rparr>))))"

definition vm_migrate_gpu_to_cpu :: "vmm \<Rightarrow> vpn \<Rightarrow> u64 \<Rightarrow> host_ptr \<Rightarrow> u64 \<times> vmm" where
  "vm_migrate_gpu_to_cpu s v gpu_addr cpu_addr =
     (if cpu_addr = 0 \<or> gpu_addr = 0 then (0, s)
      else
        (case tick s of (start_us, s1) \<Rightarrow>
         case tick s1 of (end_us, s2) \<Rightarrow>
         case migrate_gpu_to_cpu (vm_page_table s2) v gpu_addr cpu_addr start_us end_us of
           (mig_time, pt) \<Rightarrow> (mig_time, s2\<lparr>vm_page_table := pt\<rparr>)))"

text \<open>A write through \<^verbatim>\<open>entry->\<close>, the pointer into the page table of the manager.\<close>

definition vm_modify_entry :: "vmm \<Rightarrow> vpn \<Rightarrow> (page_table_entry \<Rightarrow> page_table_entry) \<Rightarrow> vmm" where
  "vm_modify_entry s v f = s\<lparr>vm_page_table := modify_entry (vm_page_table s) v f\<rparr>"

section \<open>VirtualMemoryManager::initialize and shutdown\<close>

definition initialize :: "vmm \<Rightarrow> vm_config \<Rightarrow> host_ptr \<Rightarrow> vmm option" where
  "initialize s cfg base =
     (if initialized s then Some s
      else do {
        pt \<leftarrow> pt_initialize (PageTable_new (page_size cfg)) (virtual_address_space cfg);
        a \<leftarrow> pa_initialize
               (PageAllocator_new (unat (page_size cfg)) (unat (gpu_memory cfg))
                  (unat (gpu_memory cfg))) base;
        t \<leftarrow> tlb_initialize (TLB_new (unat (cfg_tlb_size cfg)) (unat (cfg_tlb_associativity cfg)));
        Some (s\<lparr>config := cfg, vm_page_table := pt, vm_allocator := a, vm_tlb := t,
                vm_policy := (if replacement_policy cfg = LRU
                              then LRUPolicy (LRUPolicy_new 65536)
                              else CLOCKPolicy (CLOCKPolicy_new 65536)),
                next_vpn := 0, initialized := True\<rparr>)
      })"

text \<open>\<^verbatim>\<open>shutdown\<close> destroys the subsystems: what they held is gone.\<close>

definition shutdown :: "vmm \<Rightarrow> vmm" where
  "shutdown s =
     (if \<not> initialized s then s
      else s\<lparr>vm_page_table := PageTable_new 0, vm_allocator := PageAllocator_new 0 0 0,
             vm_tlb := TLB_new 0 0, vm_policy := LRUPolicy (LRUPolicy_new 0),
             vaddr_to_vpn_map := [], gpu_resident_pages := {}, initialized := False\<rparr>)"

section \<open>VirtualMemoryManager::evict_page_from_gpu\<close>

definition evict_page_from_gpu :: "vmm \<Rightarrow> vmm option" where
  "evict_page_from_gpu s =
     (if gpu_resident_pages s = {} then Some s
      else
        (case policy_select_victim (vm_policy s) of
           None \<Rightarrow> None
         | Some (victim0, pol) \<Rightarrow>
             (let s1 = s\<lparr>vm_policy := pol\<rparr>;
                  victim = (if victim0 = 0 \<and> gpu_resident_pages s1 \<noteq> {}
                            then ledger_begin s1 (gpu_resident_pages s1) else victim0)
              in if victim = 0 then Some s1
                 else
                   (case lookup_entry (vm_page_table s1) victim of
                      None \<Rightarrow> Some s1
                    | Some e \<Rightarrow>
                        (let s2 = (if is_dirty e \<and> resident_on_cpu e
                                   then (case vm_migrate_gpu_to_cpu s1 victim (gpu_address e)
                                                (cpu_address e) of
                                           (mig_time, s') \<Rightarrow> count_gpu_to_cpu mig_time s')
                                   else s1)
                         in case lookup_entry (vm_page_table s2) victim of
                              None \<Rightarrow> None
                            | Some e2 \<Rightarrow> do {
                                a \<leftarrow> deallocate_gpu_page (vm_allocator s2) (gpu_address e2);
                                t \<leftarrow> tlb_invalidate (vm_tlb s2) victim;
                                Some ((vm_modify_entry s2 victim
                                         (\<lambda>e. e\<lparr>gpu_address := 0, resident_on_gpu := False\<rparr>))
                                       \<lparr>vm_allocator := a,
                                        gpu_resident_pages := gpu_resident_pages s2 - {victim},
                                        perf := (perf s2)\<lparr>evictions := evictions (perf s2) + 1\<rparr>,
                                        vm_tlb := t\<rparr>)
                              })))))"

section \<open>VirtualMemoryManager: fault resolution and mapping\<close>

text \<open>
  The block that \<^verbatim>\<open>map_to_gpu\<close> and the device branch of \<^verbatim>\<open>resolve_page_fault\<close>
  share line for line, entered with a pointer to the live entry of the page. Every
  \<^verbatim>\<open>entry->\<close> of the source reads the entry as it is at that moment; the eviction in
  between erases no entry, so the pointer stays valid.
\<close>

definition request_gpu_slot :: "vmm \<Rightarrow> vpn \<Rightarrow> vmm option" where
  "request_gpu_slot s v =
     (case allocate_gpu_page (vm_allocator s) of
        (g, a) \<Rightarrow>
          (let s1 = vm_modify_entry (s\<lparr>vm_allocator := a\<rparr>) v (\<lambda>e. e\<lparr>gpu_address := g\<rparr>)
           in if g = 0
              then do {
                s2 \<leftarrow> evict_page_from_gpu s1;
                (case allocate_gpu_page (vm_allocator s2) of
                   (g2, a2) \<Rightarrow>
                     Some (vm_modify_entry (s2\<lparr>vm_allocator := a2\<rparr>) v
                             (\<lambda>e. e\<lparr>gpu_address := g2\<rparr>)))
              }
              else Some s1))"

definition make_gpu_resident :: "vmm \<Rightarrow> vpn \<Rightarrow> page_table_entry \<Rightarrow> vmm option" where
  "make_gpu_resident s v e =
     (if resident_on_gpu e then Some s
      else do {
        s1 \<leftarrow> (if gpu_address e = 0 then request_gpu_slot s v else Some s);
        e1 \<leftarrow> lookup_entry (vm_page_table s1) v;
        let s2 = (if resident_on_cpu e1
                  then (case vm_migrate_cpu_to_gpu s1 v (cpu_address e1) (gpu_address e1) of
                          (mig_time, s') \<Rightarrow> count_cpu_to_gpu mig_time s')
                  else s1);
        Some ((vm_modify_entry s2 v (\<lambda>e. e\<lparr>resident_on_gpu := True\<rparr>))
                \<lparr>gpu_resident_pages := insert v (gpu_resident_pages s2)\<rparr>)
      })"

text \<open>The host branch of \<^verbatim>\<open>resolve_page_fault\<close>.\<close>

definition make_cpu_resident :: "vmm \<Rightarrow> vpn \<Rightarrow> page_table_entry \<Rightarrow> vmm option" where
  "make_cpu_resident s v e =
     (if resident_on_cpu e then Some s
      else do {
        let s1 = (if cpu_address e = 0
                  then (case allocate_cpu_page (vm_allocator s) of
                          (p, a) \<Rightarrow>
                            vm_modify_entry (s\<lparr>vm_allocator := a\<rparr>) v (\<lambda>e. e\<lparr>cpu_address := p\<rparr>))
                  else s);
        e1 \<leftarrow> lookup_entry (vm_page_table s1) v;
        let s2 = (if resident_on_gpu e1
                  then (case vm_migrate_gpu_to_cpu s1 v (gpu_address e1) (cpu_address e1) of
                          (mig_time, s') \<Rightarrow> count_gpu_to_cpu mig_time s')
                  else s1);
        Some (vm_modify_entry s2 v (\<lambda>e. e\<lparr>resident_on_cpu := True\<rparr>))
      })"

definition resolve_page_fault :: "vmm \<Rightarrow> vpn \<Rightarrow> bool \<Rightarrow> vmm option" where
  "resolve_page_fault s v access_gpu =
     (case lookup_entry (vm_page_table s) v of
        None \<Rightarrow> Some s
      | Some e \<Rightarrow>
          (if access_gpu then make_gpu_resident s v e else make_cpu_resident s v e))"

text \<open>
  The public operations return \<open>None\<close> where the source has no defined result: a
  division by a page size of zero, or a failure inside a subsystem as above.
\<close>

definition map_to_cpu :: "vmm \<Rightarrow> address \<Rightarrow> vmm option" where
  "map_to_cpu s vaddr =
     (if \<not> initialized s then Some s
      else if page_size (config s) = 0 then None
      else
        (let v = vaddr_to_vpn vaddr (page_size (config s))
         in case lookup_entry (vm_page_table s) v of
              None \<Rightarrow> Some s
            | Some e \<Rightarrow> (if \<not> resident_on_cpu e then resolve_page_fault s v False else Some s)))"

definition map_to_gpu :: "vmm \<Rightarrow> address \<Rightarrow> vmm option" where
  "map_to_gpu s vaddr =
     (if \<not> initialized s then Some s
      else if page_size (config s) = 0 then None
      else
        (let v = vaddr_to_vpn vaddr (page_size (config s))
         in case lookup_entry (vm_page_table s) v of
              None \<Rightarrow> Some s
            | Some e \<Rightarrow> make_gpu_resident s v e))"

definition prefetch_to_gpu :: "vmm \<Rightarrow> address \<Rightarrow> vmm option" where
  "prefetch_to_gpu s vaddr = map_to_gpu s vaddr"

definition touch_page :: "vmm \<Rightarrow> address \<Rightarrow> bool \<Rightarrow> vmm option" where
  "touch_page s vaddr is_write =
     (if \<not> initialized s then Some s
      else if page_size (config s) = 0 then None
      else
        (let v = vaddr_to_vpn vaddr (page_size (config s))
         in do {
              s1 \<leftarrow> (case lookup_entry (vm_page_table s) v of
                       None \<Rightarrow>
                         resolve_page_fault
                           (s\<lparr>perf := (perf s)\<lparr>total_page_faults := total_page_faults (perf s) + 1\<rparr>\<rparr>)
                           v False
                     | Some e \<Rightarrow> Some s);
              (case lookup_entry (vm_page_table s1) v of
                 None \<Rightarrow> Some s1
               | Some e \<Rightarrow>
                   (case tick s1 of
                      (now, s2) \<Rightarrow>
                        Some ((vm_modify_entry s2 v
                                 (\<lambda>e. e\<lparr>access_timestamp_us := now,
                                        access_count := access_count e + 1,
                                        is_dirty := (if is_write then True else is_dirty e)\<rparr>))
                               \<lparr>vm_policy := policy_on_page_access (vm_policy s2) v\<rparr>)))
            }))"

text \<open>
  \<^verbatim>\<open>read_from_vaddr\<close> and \<^verbatim>\<open>write_to_vaddr\<close>: \<open>buffer\<close> is the caller's pointer,
  of which only the null test is modelled; the bytes that \<^verbatim>\<open>memcpy\<close> moves are not.
\<close>

definition read_from_vaddr :: "vmm \<Rightarrow> address \<Rightarrow> host_ptr \<Rightarrow> u64 \<Rightarrow> vmm option" where
  "read_from_vaddr s vaddr buffer bytes =
     (if initialized s \<and> vaddr \<noteq> 0 \<and> buffer \<noteq> 0 then
        (if page_size (config s) = 0 then None
         else
           (let v = vaddr_to_vpn vaddr (page_size (config s))
            in case lookup_entry (vm_page_table s) v of
                 None \<Rightarrow> Some s
               | Some e \<Rightarrow> do {
                   s1 \<leftarrow> (if \<not> resident_on_cpu e then resolve_page_fault s v False else Some s);
                   (case lookup_entry (vm_page_table s1) v of
                      None \<Rightarrow> Some s1
                    | Some e1 \<Rightarrow>
                        (if cpu_address e1 \<noteq> 0
                         then (case tick s1 of
                                 (now, s2) \<Rightarrow>
                                   Some (vm_modify_entry s2 v (\<lambda>e. e\<lparr>access_timestamp_us := now\<rparr>)))
                         else Some s1))
                 }))
      else Some s)"

definition write_to_vaddr :: "vmm \<Rightarrow> address \<Rightarrow> host_ptr \<Rightarrow> u64 \<Rightarrow> vmm option" where
  "write_to_vaddr s vaddr buffer bytes =
     (if initialized s \<and> vaddr \<noteq> 0 \<and> buffer \<noteq> 0 then
        (if page_size (config s) = 0 then None
         else
           (let v = vaddr_to_vpn vaddr (page_size (config s))
            in case lookup_entry (vm_page_table s) v of
                 None \<Rightarrow> Some s
               | Some e \<Rightarrow> do {
                   s1 \<leftarrow> (if \<not> resident_on_cpu e then resolve_page_fault s v False else Some s);
                   (case lookup_entry (vm_page_table s1) v of
                      None \<Rightarrow> Some s1
                    | Some e1 \<Rightarrow>
                        (if cpu_address e1 \<noteq> 0
                         then (case tick s1 of
                                 (now, s2) \<Rightarrow>
                                   Some (vm_modify_entry s2 v
                                           (\<lambda>e. e\<lparr>is_dirty := True, access_timestamp_us := now\<rparr>)))
                         else Some s1))
                 }))
      else Some s)"

text \<open>
  \<^verbatim>\<open>sync_all_migrations\<close> waits until the queue of the migration manager is empty. The
  manager never queues a job (it calls the synchronous migrations only), so the wait ends
  at once and nothing changes.
\<close>

definition sync_all_migrations :: "vmm \<Rightarrow> vmm" where
  "sync_all_migrations s = s"

definition reset_counters :: "vmm \<Rightarrow> vmm" where
  "reset_counters s = s\<lparr>perf := PerfCounters_zero\<rparr>"

section \<open>VirtualMemoryManager::allocate\<close>

text \<open>
  The three \<^verbatim>\<open>return nullptr\<close> of \<^verbatim>\<open>allocate\<close> differ in the error they log; the
  result names which one was taken. \<open>result_ptr\<close> is the pointer the caller receives.
\<close>

datatype allocate_result =
  NotInitialized | VpnRangeFailed | CpuPageFailed | Allocated address

fun result_ptr :: "allocate_result \<Rightarrow> address" where
  "result_ptr (Allocated vaddr) = vaddr"
| "result_ptr r = 0"

text \<open>\<^verbatim>\<open>for (auto p : cpu_pages) allocator_->deallocate_cpu_page(p)\<close>.\<close>

fun release_cpu_pages :: "page_allocator \<Rightarrow> host_ptr list \<Rightarrow> page_allocator option" where
  "release_cpu_pages a [] = Some a"
| "release_cpu_pages a (p # ps) =
     (case deallocate_cpu_page a p of None \<Rightarrow> None | Some a' \<Rightarrow> release_cpu_pages a' ps)"

text \<open>
  The first loop of \<^verbatim>\<open>allocate\<close>, over the indices still to do. Its result is the list
  \<^verbatim>\<open>cpu_pages\<close>, or nothing when a host page could not be had and the loop undid its work.
\<close>

fun allocate_host_pages ::
  "vmm \<Rightarrow> vpn \<Rightarrow> u32 \<Rightarrow> host_ptr list \<Rightarrow> nat list \<Rightarrow> (host_ptr list option \<times> vmm) option" where
  "allocate_host_pages s vpn_start num_pages cpu_pages [] = Some (Some cpu_pages, s)"
| "allocate_host_pages s vpn_start num_pages cpu_pages (i # is) =
     (case allocate_cpu_page (vm_allocator s) of
        (cpu_page, a1) \<Rightarrow>
          (if cpu_page = 0 then
             (case release_cpu_pages a1 cpu_pages of
                None \<Rightarrow> None
              | Some a2 \<Rightarrow>
                  Some (None,
                        s\<lparr>vm_allocator := a2,
                          vm_page_table :=
                            deallocate_vpn_range (vm_page_table s) vpn_start num_pages\<rparr>))
           else
             (let v = vpn_start + of_nat i
              in case tick (s\<lparr>vm_allocator := a1\<rparr>) of
                   (t1, s1) \<Rightarrow>
                     (case tick (s1\<lparr>vm_page_table := set_cpu_resident (vm_page_table s1) v cpu_page t1\<rparr>) of
                        (t2, s2) \<Rightarrow>
                          allocate_host_pages
                            (s2\<lparr>vm_page_table := update_access_time (vm_page_table s2) v t2,
                                vm_policy := policy_on_page_allocated (vm_policy s2) v\<rparr>)
                            vpn_start num_pages (cpu_pages @ [cpu_page]) is))))"

text \<open>The prefetch loop; \<^verbatim>\<open>cpu_pages[i]\<close> outside the vector has no defined result.\<close>

fun prefetch_pages :: "vmm \<Rightarrow> vpn \<Rightarrow> host_ptr list \<Rightarrow> nat list \<Rightarrow> vmm option" where
  "prefetch_pages s vpn_start cpu_pages [] = Some s"
| "prefetch_pages s vpn_start cpu_pages (i # is) =
     (case allocate_gpu_page (vm_allocator s) of
        (gpu_addr, a1) \<Rightarrow>
          (if gpu_addr = 0 then prefetch_pages (s\<lparr>vm_allocator := a1\<rparr>) vpn_start cpu_pages is
           else if i \<ge> length cpu_pages then None
           else
             (let v = vpn_start + of_nat i
              in case tick (s\<lparr>vm_allocator := a1\<rparr>) of
                   (t1, s1) \<Rightarrow>
                     (case vm_migrate_cpu_to_gpu
                             (s1\<lparr>vm_page_table := set_gpu_resident (vm_page_table s1) v gpu_addr t1,
                                 gpu_resident_pages := insert v (gpu_resident_pages s1)\<rparr>)
                             v (cpu_pages ! i) gpu_addr of
                        (mig_time, s2) \<Rightarrow>
                          (let s3 = count_cpu_to_gpu mig_time s2
                           in prefetch_pages
                                (s3\<lparr>perf := (perf s3)\<lparr>page_prefetches := page_prefetches (perf s3) + 1\<rparr>\<rparr>)
                                vpn_start cpu_pages is)))))"

definition allocate :: "vmm \<Rightarrow> u64 \<Rightarrow> bool \<Rightarrow> (allocate_result \<times> vmm) option" where
  "allocate s bytes prefetch =
     (if \<not> initialized s then Some (NotInitialized, s)
      else if page_size (config s) = 0 then None
      else
        (let aligned_size = align_to_page bytes (page_size (config s));
             num_pages = (ucast (aligned_size div page_size (config s)) :: u32);
             vpn_start = next_vpn s
         in case allocate_vpn_range (vm_page_table s) vpn_start num_pages of
              (ok, pt) \<Rightarrow>
                (if \<not> ok then Some (VpnRangeFailed, s\<lparr>vm_page_table := pt\<rparr>)
                 else do {
                   (pages, s1) \<leftarrow>
                     allocate_host_pages (s\<lparr>vm_page_table := pt\<rparr>) vpn_start num_pages []
                       [0..<unat num_pages];
                   (case pages of
                      None \<Rightarrow> Some (CpuPageFailed, s1)
                    | Some cpu_pages \<Rightarrow> do {
                        s2 \<leftarrow> (if prefetch
                               then prefetch_pages s1 vpn_start cpu_pages [0..<unat num_pages]
                               else Some s1);
                        let vaddr = vpn_to_vaddr vpn_start (page_size (config s));
                        Some (Allocated vaddr,
                              s2\<lparr>vaddr_to_vpn_map := AList.update vaddr vpn_start (vaddr_to_vpn_map s2),
                                 next_vpn := next_vpn s2 + ucast num_pages\<rparr>)
                      })
                 })))"

section \<open>VirtualMemoryManager::free\<close>

text \<open>The body of the loop of \<^verbatim>\<open>free\<close>, for one page.\<close>

definition free_page :: "vmm \<Rightarrow> vpn \<Rightarrow> vmm option" where
  "free_page s v =
     (let entry = lookup_entry (vm_page_table s) v
      in do {
        a1 \<leftarrow> (case entry of
                 None \<Rightarrow> Some (vm_allocator s)
               | Some e \<Rightarrow>
                   (if cpu_address e \<noteq> 0 then deallocate_cpu_page (vm_allocator s) (cpu_address e)
                    else Some (vm_allocator s)));
        a2 \<leftarrow> (case entry of
                 None \<Rightarrow> Some a1
               | Some e \<Rightarrow>
                   (if gpu_address e \<noteq> 0 then deallocate_gpu_page a1 (gpu_address e)
                    else Some a1));
        t \<leftarrow> tlb_invalidate (vm_tlb s) v;
        Some (s\<lparr>vm_allocator := a2,
                gpu_resident_pages := gpu_resident_pages s - {v},
                vm_policy := policy_on_page_freed (vm_policy s) v,
                vm_tlb := t\<rparr>)
      })"

fun free_pages :: "vmm \<Rightarrow> vpn \<Rightarrow> nat list \<Rightarrow> vmm option" where
  "free_pages s vpn_start [] = Some s"
| "free_pages s vpn_start (i # is) =
     (case free_page s (vpn_start + of_nat i) of
        None \<Rightarrow> None
      | Some s' \<Rightarrow> free_pages s' vpn_start is)"

text \<open>
  The number of pages \<^verbatim>\<open>free\<close> releases: the live entries of the whole page table whose
  page number is at least \<^verbatim>\<open>vpn_start\<close>, counted in a \<^verbatim>\<open>uint32_t\<close>, and one when
  there are none.
\<close>

definition pages_to_free :: "page_table \<Rightarrow> vpn \<Rightarrow> u32" where
  "pages_to_free pt vpn_start =
     (let n = (of_nat (length (filter (\<lambda>(v, e). v \<ge> vpn_start \<and> is_valid e)
                                  (get_all_entries pt))) :: u32)
      in if n = 0 then 1 else n)"

definition free :: "vmm \<Rightarrow> address \<Rightarrow> vmm option" where
  "free s vaddr =
     (if \<not> initialized s then Some s
      else
        (case map_of (vaddr_to_vpn_map s) vaddr of
           None \<Rightarrow> Some s
         | Some vpn_start \<Rightarrow>
             (let num_pages = pages_to_free (vm_page_table s) vpn_start
              in do {
                s1 \<leftarrow> free_pages s vpn_start [0..<unat num_pages];
                Some (s1\<lparr>vm_page_table := deallocate_vpn_range (vm_page_table s1) vpn_start num_pages,
                        vaddr_to_vpn_map := AList.delete vaddr (vaddr_to_vpn_map s1)\<rparr>)
              })))"

section \<open>The public interface as a transition system\<close>

text \<open>
  One constructor for each public operation of the manager, and two for the private
  fault resolution and eviction, which are steps of their own in what follows.
\<close>

datatype operation =
  Initialize vm_config host_ptr
| Shutdown
| Allocate u64 bool
| Free address
| MapToCpu address
| MapToGpu address
| PrefetchToGpu address
| TouchPage address bool
| ReadFromVaddr address host_ptr u64
| WriteToVaddr address host_ptr u64
| SyncAllMigrations
| ResetCounters
| ResolvePageFault vpn bool
| EvictPageFromGpu

fun step :: "operation \<Rightarrow> vmm \<Rightarrow> vmm option" where
  "step (Initialize cfg base) s = initialize s cfg base"
| "step Shutdown s = Some (shutdown s)"
| "step (Allocate bytes prefetch) s = map_option snd (allocate s bytes prefetch)"
| "step (Free vaddr) s = free s vaddr"
| "step (MapToCpu vaddr) s = map_to_cpu s vaddr"
| "step (MapToGpu vaddr) s = map_to_gpu s vaddr"
| "step (PrefetchToGpu vaddr) s = prefetch_to_gpu s vaddr"
| "step (TouchPage vaddr is_write) s = touch_page s vaddr is_write"
| "step (ReadFromVaddr vaddr buffer bytes) s = read_from_vaddr s vaddr buffer bytes"
| "step (WriteToVaddr vaddr buffer bytes) s = write_to_vaddr s vaddr buffer bytes"
| "step SyncAllMigrations s = Some (sync_all_migrations s)"
| "step ResetCounters s = Some (reset_counters s)"
| "step (ResolvePageFault v access_gpu) s = resolve_page_fault s v access_gpu"
| "step EvictPageFromGpu s = evict_page_from_gpu s"

fun run :: "operation list \<Rightarrow> vmm \<Rightarrow> vmm option" where
  "run [] s = Some s"
| "run (x # xs) s = (case step x s of None \<Rightarrow> None | Some s' \<Rightarrow> run xs s')"

section \<open>The accounting of migrations\<close>

text \<open>
  \<open>counters_consistent\<close> is the equation between the bytes migrated and the two
  migration counts; \<open>same_accounting\<close> says that a step keeps the configuration and the
  equation.
\<close>

definition counters_consistent :: "vmm \<Rightarrow> bool" where
  "counters_consistent s \<longleftrightarrow>
     total_bytes_migrated (perf s) =
       page_size (config s) * (cpu_to_gpu_migrations (perf s) + gpu_to_cpu_migrations (perf s))"

definition same_accounting :: "vmm \<Rightarrow> vmm \<Rightarrow> bool" where
  "same_accounting s s' \<longleftrightarrow>
     config s' = config s \<and> (counters_consistent s \<longrightarrow> counters_consistent s')"




lemma count_cpu_to_gpu_accounting: "same_accounting s (count_cpu_to_gpu t s)"
  by (simp add: same_accounting_def counters_consistent_def count_cpu_to_gpu_def algebra_simps)

lemma count_gpu_to_cpu_accounting: "same_accounting s (count_gpu_to_cpu t s)"
  by (simp add: same_accounting_def counters_consistent_def count_gpu_to_cpu_def algebra_simps)

lemma tick_frame:
  "config (snd (tick s)) = config s" "perf (snd (tick s)) = perf s"
  by (simp_all add: tick_def get_timestamp_us_def)

lemma vm_migrate_frame:
  "config (snd (vm_migrate_gpu_to_cpu s v g p)) = config s"
  "perf (snd (vm_migrate_gpu_to_cpu s v g p)) = perf s"
  "config (snd (vm_migrate_cpu_to_gpu s v p g)) = config s"
  "perf (snd (vm_migrate_cpu_to_gpu s v p g)) = perf s"
  by (simp_all add: vm_migrate_gpu_to_cpu_def vm_migrate_cpu_to_gpu_def split_beta tick_frame)

lemma vm_modify_entry_frame:
  "config (vm_modify_entry s v f) = config s" "perf (vm_modify_entry s v f) = perf s"
  by (simp_all add: vm_modify_entry_def)


















subsection \<open>Page table facts\<close>

definition vpn_range :: "vpn \<Rightarrow> nat list \<Rightarrow> vpn set" where
  "vpn_range vpn_start is = (\<lambda>i. vpn_start + of_nat i) ` set is"

lemma vpn_range_Nil: "vpn_range vs [] = {}"
  by (simp add: vpn_range_def)

lemma vpn_range_Cons: "vpn_range vs (i # is) = insert (vs + of_nat i) (vpn_range vs is)"
  by (simp add: vpn_range_def)

lemma vpn_range_mono: "set is \<subseteq> set js \<Longrightarrow> vpn_range vs is \<subseteq> vpn_range vs js"
  by (auto simp: vpn_range_def)

lemma lookup_modify_entry:
  "lookup_entry (modify_entry pt v f) v' =
     (if v' = v then map_option f (lookup_entry pt v) else lookup_entry pt v')"
  by (auto simp: lookup_entry_def modify_entry_def map_of_map_entry split: option.splits)

lemma allocate_vpn_range_loop_outside:
  "allocate_vpn_range_loop es vs is = (ok, es') \<Longrightarrow> v \<notin> vpn_range vs is \<Longrightarrow>
   map_of es' v = map_of es v"
proof (induction "is" arbitrary: es)
  case Nil
  then show ?case by simp
next
  case (Cons i "is")
  then show ?case
    by (auto simp: Let_def vpn_range_Cons update_conv' split: if_splits)
qed

lemma allocate_vpn_range_loop_fresh:
  "allocate_vpn_range_loop es vs is = (True, es') \<Longrightarrow> v \<in> vpn_range vs is \<Longrightarrow>
   map_of es v = None"
proof (induction "is" arbitrary: es)
  case Nil
  then show ?case by (simp add: vpn_range_Nil)
next
  case (Cons i "is")
  show ?case
  proof (cases "v = vs + of_nat i")
    case True
    with Cons.prems show ?thesis by (auto simp: Let_def split: if_splits)
  next
    case False
    with Cons.prems have rec:
      "allocate_vpn_range_loop
         (AList.update (vs + of_nat i) (PageTableEntry_new\<lparr>is_valid := True\<rparr>) es) vs is
       = (True, es')" and mem: "v \<in> vpn_range vs is"
      by (auto simp: Let_def vpn_range_Cons split: if_splits)
    from Cons.IH [OF rec mem] False show ?thesis
      by (simp add: update_conv')
  qed
qed

lemma allocate_vpn_range_loop_keeps:
  "allocate_vpn_range_loop es vs is = (ok, es') \<Longrightarrow> map_of es v = Some e \<Longrightarrow>
   map_of es' v = Some e"
proof (induction "is" arbitrary: es)
  case Nil
  then show ?case by simp
next
  case (Cons i "is")
  show ?case
  proof (cases "map_of es (vs + of_nat i) = None")
    case True
    with Cons.prems have rec:
      "allocate_vpn_range_loop
         (AList.update (vs + of_nat i) (PageTableEntry_new\<lparr>is_valid := True\<rparr>) es) vs is
       = (ok, es')" and ne: "v \<noteq> vs + of_nat i"
      by (auto simp: Let_def)
    from ne Cons.prems(2)
    have "map_of (AList.update (vs + of_nat i) (PageTableEntry_new\<lparr>is_valid := True\<rparr>) es) v
          = Some e"
      by (simp add: update_conv')
    from Cons.IH [OF rec this] show ?thesis .
  next
    case False
    with Cons.prems show ?thesis by (auto simp: Let_def)
  qed
qed

lemma deallocate_vpn_range_loop_lookup:
  "map_of (deallocate_vpn_range_loop es vs is) v =
     (if v \<in> vpn_range vs is then None else map_of es v)"
proof (induction "is" arbitrary: es)
  case Nil
  then show ?case by (simp add: vpn_range_Nil)
next
  case (Cons i "is")
  then show ?case by (auto simp: vpn_range_Cons delete_conv')
qed

lemma lookup_deallocate_vpn_range:
  "lookup_entry (deallocate_vpn_range pt vs n) v =
     (if v \<in> vpn_range vs [0..<unat n] then None else lookup_entry pt v)"
  by (simp add: lookup_entry_def deallocate_vpn_range_def deallocate_vpn_range_loop_lookup)


subsection \<open>host residency is kept\<close>

definition host_resident :: "vmm \<Rightarrow> vpn \<Rightarrow> host_ptr \<Rightarrow> bool" where
  "host_resident s v p =
     (case lookup_entry (vm_page_table s) v of
        None \<Rightarrow> False
      | Some e \<Rightarrow> resident_on_cpu e \<and> cpu_address e = p)"

definition keeps_host :: "vmm \<Rightarrow> vmm \<Rightarrow> bool" where
  "keeps_host s s' \<longleftrightarrow>
     (\<forall>v p. host_resident s v p \<longrightarrow> host_resident s' v p) \<and>
     (initialized s \<longrightarrow> initialized s')"

lemma keeps_host_refl: "keeps_host s s"
  by (simp add: keeps_host_def)

lemma keeps_host_trans: "keeps_host s s1 \<Longrightarrow> keeps_host s1 s2 \<Longrightarrow> keeps_host s s2"
  by (simp add: keeps_host_def)

lemma keeps_host_same_table:
  "vm_page_table s' = vm_page_table s \<Longrightarrow> initialized s' = initialized s \<Longrightarrow> keeps_host s s'"
  by (simp add: keeps_host_def host_resident_def)

lemma tick_table:
  "vm_page_table (snd (tick s)) = vm_page_table s" "initialized (snd (tick s)) = initialized s"
  by (simp_all add: tick_def get_timestamp_us_def)

lemma lookup_vm_modify_entry:
  "lookup_entry (vm_page_table (vm_modify_entry s v f)) v' =
     (if v' = v then map_option f (lookup_entry (vm_page_table s) v)
      else lookup_entry (vm_page_table s) v')"
  by (simp add: vm_modify_entry_def lookup_modify_entry)

lemma initialized_vm_modify_entry: "initialized (vm_modify_entry s v f) = initialized s"
  by (simp add: vm_modify_entry_def)

lemma lookup_vm_migrate_gpu_to_cpu:
  "lookup_entry (vm_page_table (snd (vm_migrate_gpu_to_cpu s v g p))) v' =
     (if v' = v \<and> p \<noteq> 0 \<and> g \<noteq> 0
      then map_option (\<lambda>e. e\<lparr>resident_on_cpu := True, cpu_address := p\<rparr>)
             (lookup_entry (vm_page_table s) v)
      else lookup_entry (vm_page_table s) v')"
  by (simp add: vm_migrate_gpu_to_cpu_def migrate_gpu_to_cpu_def split_beta tick_table
      lookup_modify_entry)

lemma lookup_vm_migrate_cpu_to_gpu:
  "lookup_entry (vm_page_table (snd (vm_migrate_cpu_to_gpu s v p g))) v' =
     (if v' = v \<and> p \<noteq> 0
      then map_option (\<lambda>e. e\<lparr>resident_on_gpu := True, gpu_address := g, is_dirty := False\<rparr>)
             (lookup_entry (vm_page_table s) v)
      else lookup_entry (vm_page_table s) v')"
  by (auto simp: vm_migrate_cpu_to_gpu_def migrate_cpu_to_gpu_def split_beta tick_table
      lookup_modify_entry)

lemma initialized_vm_migrate:
  "initialized (snd (vm_migrate_gpu_to_cpu s v g p)) = initialized s"
  "initialized (snd (vm_migrate_cpu_to_gpu s v p g)) = initialized s"
  by (simp_all add: vm_migrate_gpu_to_cpu_def vm_migrate_cpu_to_gpu_def split_beta tick_table)

lemma count_table:
  "vm_page_table (count_gpu_to_cpu t s) = vm_page_table s"
  "vm_page_table (count_cpu_to_gpu t s) = vm_page_table s"
  "initialized (count_gpu_to_cpu t s) = initialized s"
  "initialized (count_cpu_to_gpu t s) = initialized s"
  by (simp_all add: count_gpu_to_cpu_def count_cpu_to_gpu_def)

lemmas host_simps =
  keeps_host_def host_resident_def lookup_vm_modify_entry initialized_vm_modify_entry
  lookup_vm_migrate_gpu_to_cpu lookup_vm_migrate_cpu_to_gpu initialized_vm_migrate
  count_table tick_table split_beta bind_eq_Some_conv

lemma evict_initialized: "evict_page_from_gpu s = Some s' \<Longrightarrow> initialized s' = initialized s"
  unfolding evict_page_from_gpu_def Let_def
  by (auto split: if_splits option.splits
      simp: split_beta bind_eq_Some_conv initialized_vm_modify_entry initialized_vm_migrate count_table)

lemma evict_host_resident:
  "evict_page_from_gpu s = Some s' \<Longrightarrow> host_resident s v p \<Longrightarrow> host_resident s' v p"
  unfolding evict_page_from_gpu_def Let_def
  by (auto split: if_splits option.splits
      simp: host_resident_def split_beta bind_eq_Some_conv lookup_vm_modify_entry
        lookup_vm_migrate_gpu_to_cpu count_table)


lemmas init_simps =
  split_beta bind_eq_Some_conv initialized_vm_modify_entry initialized_vm_migrate count_table
  tick_table

lemmas res_simps =
  host_resident_def split_beta bind_eq_Some_conv lookup_vm_modify_entry
  lookup_vm_migrate_gpu_to_cpu lookup_vm_migrate_cpu_to_gpu count_table tick_table

lemma request_gpu_slot_initialized:
  "request_gpu_slot s v = Some s' \<Longrightarrow> initialized s' = initialized s"
  unfolding request_gpu_slot_def Let_def
  by (auto split: if_splits dest!: evict_initialized simp: init_simps)

lemma request_gpu_slot_host_resident:
  "request_gpu_slot s v = Some s' \<Longrightarrow> host_resident s w p \<Longrightarrow> host_resident s' w p"
proof -
  assume run: "request_gpu_slot s v = Some s'" and hr: "host_resident s w p"
  obtain g a where al: "allocate_gpu_page (vm_allocator s) = (g, a)"
    by (cases "allocate_gpu_page (vm_allocator s)")
  define s1 where "s1 = vm_modify_entry (s\<lparr>vm_allocator := a\<rparr>) v (\<lambda>e. e\<lparr>gpu_address := g\<rparr>)"
  from hr have hr1: "host_resident s1 w p"
    by (auto simp: s1_def res_simps split: option.splits)
  show ?thesis
  proof (cases "g = 0")
    case False
    with run al have "s' = s1" by (simp add: request_gpu_slot_def s1_def)
    with hr1 show ?thesis by simp
  next
    case True
    with run al obtain s2 where ev: "evict_page_from_gpu s1 = Some s2"
      and fin: "s' = vm_modify_entry
                  (s2\<lparr>vm_allocator := snd (allocate_gpu_page (vm_allocator s2))\<rparr>) v
                  (\<lambda>e. e\<lparr>gpu_address := fst (allocate_gpu_page (vm_allocator s2))\<rparr>)"
      by (auto simp: request_gpu_slot_def s1_def split_beta bind_eq_Some_conv)
    from evict_host_resident [OF ev hr1] have "host_resident s2 w p" .
    then show ?thesis
      by (auto simp: fin res_simps split: option.splits)
  qed
qed

lemma make_gpu_resident_initialized:
  "make_gpu_resident s v e = Some s' \<Longrightarrow> initialized s' = initialized s"
  unfolding make_gpu_resident_def Let_def
  by (auto split: if_splits dest!: request_gpu_slot_initialized simp: init_simps)

lemma make_gpu_resident_host_resident:
  "make_gpu_resident s v e = Some s' \<Longrightarrow> host_resident s w p \<Longrightarrow> host_resident s' w p"
proof -
  assume run: "make_gpu_resident s v e = Some s'" and hr: "host_resident s w p"
  show ?thesis
  proof (cases "resident_on_gpu e")
    case True
    with run hr show ?thesis by (simp add: make_gpu_resident_def)
  next
    case False
    with run obtain s1 where
      s1: "(if gpu_address e = 0 then request_gpu_slot s v else Some s) = Some s1"
      and rest: "\<exists>e1. lookup_entry (vm_page_table s1) v = Some e1 \<and>
          s' = (vm_modify_entry
                  (if resident_on_cpu e1
                   then count_cpu_to_gpu
                          (fst (vm_migrate_cpu_to_gpu s1 v (cpu_address e1) (gpu_address e1)))
                          (snd (vm_migrate_cpu_to_gpu s1 v (cpu_address e1) (gpu_address e1)))
                   else s1) v (\<lambda>e. e\<lparr>resident_on_gpu := True\<rparr>))
                \<lparr>gpu_resident_pages := insert v
                   (gpu_resident_pages
                     (if resident_on_cpu e1
                      then count_cpu_to_gpu
                             (fst (vm_migrate_cpu_to_gpu s1 v (cpu_address e1) (gpu_address e1)))
                             (snd (vm_migrate_cpu_to_gpu s1 v (cpu_address e1) (gpu_address e1)))
                      else s1))\<rparr>"
      by (auto simp: make_gpu_resident_def Let_def split_beta bind_eq_Some_conv)
    from s1 hr have "host_resident s1 w p"
      by (auto split: if_splits dest: request_gpu_slot_host_resident)
    with rest show ?thesis
      by (auto simp: res_simps split: option.splits if_splits)
  qed
qed

lemma make_cpu_resident_initialized:
  "make_cpu_resident s v e = Some s' \<Longrightarrow> initialized s' = initialized s"
  unfolding make_cpu_resident_def Let_def
  by (auto split: if_splits simp: init_simps)

lemma make_cpu_resident_host_resident:
  "make_cpu_resident s v e = Some s' \<Longrightarrow> lookup_entry (vm_page_table s) v = Some e \<Longrightarrow>
   host_resident s w p \<Longrightarrow> host_resident s' w p"
  unfolding make_cpu_resident_def Let_def
  by (auto split: if_splits option.splits simp: res_simps)

lemma resolve_page_fault_initialized:
  "resolve_page_fault s v g = Some s' \<Longrightarrow> initialized s' = initialized s"
  unfolding resolve_page_fault_def
  by (auto split: option.splits if_splits
      dest: make_gpu_resident_initialized make_cpu_resident_initialized)

lemma resolve_page_fault_host_resident:
  "resolve_page_fault s v g = Some s' \<Longrightarrow> host_resident s w p \<Longrightarrow> host_resident s' w p"
  unfolding resolve_page_fault_def
  by (auto split: option.splits if_splits
      dest: make_gpu_resident_host_resident make_cpu_resident_host_resident)


lemma map_to_cpu_initialized: "map_to_cpu s a = Some s' \<Longrightarrow> initialized s' = initialized s"
  unfolding map_to_cpu_def Let_def
  by (auto split: option.splits if_splits dest: resolve_page_fault_initialized)

lemma map_to_cpu_host_resident:
  "map_to_cpu s a = Some s' \<Longrightarrow> host_resident s w p \<Longrightarrow> host_resident s' w p"
  unfolding map_to_cpu_def Let_def
  by (auto split: option.splits if_splits dest: resolve_page_fault_host_resident)

lemma map_to_gpu_initialized: "map_to_gpu s a = Some s' \<Longrightarrow> initialized s' = initialized s"
  unfolding map_to_gpu_def Let_def
  by (auto split: option.splits if_splits dest: make_gpu_resident_initialized)

lemma map_to_gpu_host_resident:
  "map_to_gpu s a = Some s' \<Longrightarrow> host_resident s w p \<Longrightarrow> host_resident s' w p"
  unfolding map_to_gpu_def Let_def
  by (auto split: option.splits if_splits dest: make_gpu_resident_host_resident)

lemma touch_page_miss:
  "initialized s \<Longrightarrow> page_size (config s) \<noteq> 0 \<Longrightarrow>
   lookup_entry (vm_page_table s) (vaddr_to_vpn a (page_size (config s))) = None \<Longrightarrow>
   touch_page s a wr =
     Some (s\<lparr>perf := (perf s)\<lparr>total_page_faults := total_page_faults (perf s) + 1\<rparr>\<rparr>)"
  by (simp add: touch_page_def Let_def resolve_page_fault_def)

lemma touch_page_hit:
  "initialized s \<Longrightarrow> page_size (config s) \<noteq> 0 \<Longrightarrow>
   lookup_entry (vm_page_table s) (vaddr_to_vpn a (page_size (config s))) = Some e \<Longrightarrow>
   touch_page s a wr =
     Some ((vm_modify_entry (snd (tick s)) (vaddr_to_vpn a (page_size (config s)))
              (\<lambda>e. e\<lparr>access_timestamp_us := fst (tick s),
                     access_count := access_count e + 1,
                     is_dirty := (if wr then True else is_dirty e)\<rparr>))
            \<lparr>vm_policy := policy_on_page_access (vm_policy (snd (tick s)))
                            (vaddr_to_vpn a (page_size (config s)))\<rparr>)"
  by (simp add: touch_page_def Let_def split_beta)

lemma touch_page_cases:
  assumes "touch_page s a wr = Some s'"
  obtains "\<not> initialized s" "s' = s"
  | "initialized s" "page_size (config s) \<noteq> 0"
    "lookup_entry (vm_page_table s) (vaddr_to_vpn a (page_size (config s))) = None"
    "s' = s\<lparr>perf := (perf s)\<lparr>total_page_faults := total_page_faults (perf s) + 1\<rparr>\<rparr>"
  | e where "initialized s" "page_size (config s) \<noteq> 0"
    "lookup_entry (vm_page_table s) (vaddr_to_vpn a (page_size (config s))) = Some e"
    "s' = (vm_modify_entry (snd (tick s)) (vaddr_to_vpn a (page_size (config s)))
              (\<lambda>e. e\<lparr>access_timestamp_us := fst (tick s),
                     access_count := access_count e + 1,
                     is_dirty := (if wr then True else is_dirty e)\<rparr>))
            \<lparr>vm_policy := policy_on_page_access (vm_policy (snd (tick s)))
                            (vaddr_to_vpn a (page_size (config s)))\<rparr>"
proof (cases "initialized s")
  case False
  with assms have "s' = s" by (simp add: touch_page_def)
  with False show ?thesis by (rule that(1))
next
  case True
  have ps: "page_size (config s) \<noteq> 0"
  proof
    assume "page_size (config s) = 0"
    with True have "touch_page s a wr = None" by (simp add: touch_page_def)
    with assms show False by simp
  qed
  show ?thesis
  proof (cases "lookup_entry (vm_page_table s) (vaddr_to_vpn a (page_size (config s)))")
    case None
    from assms touch_page_miss [OF True ps None, of wr]
    have "s' = s\<lparr>perf := (perf s)\<lparr>total_page_faults := total_page_faults (perf s) + 1\<rparr>\<rparr>"
      by simp
    with True ps None show ?thesis by (rule that(2))
  next
    case (Some e)
    from assms touch_page_hit [OF True ps Some, of wr]
    have "s' = (vm_modify_entry (snd (tick s)) (vaddr_to_vpn a (page_size (config s)))
              (\<lambda>e. e\<lparr>access_timestamp_us := fst (tick s),
                     access_count := access_count e + 1,
                     is_dirty := (if wr then True else is_dirty e)\<rparr>))
            \<lparr>vm_policy := policy_on_page_access (vm_policy (snd (tick s)))
                            (vaddr_to_vpn a (page_size (config s)))\<rparr>"
      by simp
    with True ps Some show ?thesis by (rule that(3))
  qed
qed

lemma touch_page_initialized:
  "touch_page s a wr = Some s' \<Longrightarrow> initialized s' = initialized s"
  by (erule touch_page_cases) (simp_all add: init_simps)

lemma touch_page_host_resident:
  "touch_page s a wr = Some s' \<Longrightarrow> host_resident s w p \<Longrightarrow> host_resident s' w p"
  by (erule touch_page_cases) (auto simp: res_simps split: option.splits)


lemma read_from_vaddr_initialized:
  "read_from_vaddr s a b n = Some s' \<Longrightarrow> initialized s' = initialized s"
  unfolding read_from_vaddr_def Let_def
  by (auto split: option.splits if_splits dest!: resolve_page_fault_initialized
      simp: init_simps)

lemma write_to_vaddr_initialized:
  "write_to_vaddr s a b n = Some s' \<Longrightarrow> initialized s' = initialized s"
  unfolding write_to_vaddr_def Let_def
  by (auto split: option.splits if_splits dest!: resolve_page_fault_initialized
      simp: init_simps)


definition access_tail ::
  "(u64 \<Rightarrow> page_table_entry \<Rightarrow> page_table_entry) \<Rightarrow> vpn \<Rightarrow> vmm \<Rightarrow> vmm option" where
  "access_tail f v s1 =
     (case lookup_entry (vm_page_table s1) v of
        None \<Rightarrow> Some s1
      | Some e1 \<Rightarrow>
          (if cpu_address e1 \<noteq> 0
           then (case tick s1 of (now, s2) \<Rightarrow> Some (vm_modify_entry s2 v (f now)))
           else Some s1))"

lemma read_from_vaddr_unfold:
  "initialized s \<Longrightarrow> a \<noteq> 0 \<Longrightarrow> b \<noteq> 0 \<Longrightarrow> page_size (config s) \<noteq> 0 \<Longrightarrow>
   lookup_entry (vm_page_table s) (vaddr_to_vpn a (page_size (config s))) = Some e \<Longrightarrow>
   read_from_vaddr s a b n =
     Option.bind (if \<not> resident_on_cpu e
                  then resolve_page_fault s (vaddr_to_vpn a (page_size (config s))) False
                  else Some s)
       (access_tail (\<lambda>now e. e\<lparr>access_timestamp_us := now\<rparr>)
          (vaddr_to_vpn a (page_size (config s))))"
  by (simp add: read_from_vaddr_def Let_def access_tail_def [abs_def])

lemma write_to_vaddr_unfold:
  "initialized s \<Longrightarrow> a \<noteq> 0 \<Longrightarrow> b \<noteq> 0 \<Longrightarrow> page_size (config s) \<noteq> 0 \<Longrightarrow>
   lookup_entry (vm_page_table s) (vaddr_to_vpn a (page_size (config s))) = Some e \<Longrightarrow>
   write_to_vaddr s a b n =
     Option.bind (if \<not> resident_on_cpu e
                  then resolve_page_fault s (vaddr_to_vpn a (page_size (config s))) False
                  else Some s)
       (access_tail (\<lambda>now e. e\<lparr>is_dirty := True, access_timestamp_us := now\<rparr>)
          (vaddr_to_vpn a (page_size (config s))))"
  by (simp add: write_to_vaddr_def Let_def access_tail_def [abs_def])

lemma access_tail_host_resident:
  "access_tail f v s1 = Some s' \<Longrightarrow> host_resident s1 w p \<Longrightarrow>
   (\<And>now e. resident_on_cpu (f now e) = resident_on_cpu e \<and>
             cpu_address (f now e) = cpu_address e) \<Longrightarrow>
   host_resident s' w p"
  unfolding access_tail_def
  by (auto simp: res_simps split: option.splits if_splits)

lemma read_from_vaddr_host_resident:
  assumes run: "read_from_vaddr s a b n = Some s'" and hr: "host_resident s w p"
  shows "host_resident s' w p"
proof (cases "initialized s \<and> a \<noteq> 0 \<and> b \<noteq> 0")
  case False
  with run have "s' = s" by (auto simp: read_from_vaddr_def)
  with hr show ?thesis by simp
next
  case guard: True
  have ps: "page_size (config s) \<noteq> 0"
  proof
    assume "page_size (config s) = 0"
    with guard have "read_from_vaddr s a b n = None" by (simp add: read_from_vaddr_def)
    with run show False by simp
  qed
  show ?thesis
  proof (cases "lookup_entry (vm_page_table s) (vaddr_to_vpn a (page_size (config s)))")
    case None
    with guard ps run have "s' = s" by (simp add: read_from_vaddr_def Let_def)
    with hr show ?thesis by simp
  next
    case (Some e)
    from guard have g: "initialized s" "a \<noteq> 0" "b \<noteq> 0" by simp_all
    from run read_from_vaddr_unfold [OF g ps Some, of n] obtain s1 where
      s1: "(if \<not> resident_on_cpu e
            then resolve_page_fault s (vaddr_to_vpn a (page_size (config s))) False
            else Some s) = Some s1"
      and tail: "access_tail (\<lambda>now e. e\<lparr>access_timestamp_us := now\<rparr>)
                   (vaddr_to_vpn a (page_size (config s))) s1 = Some s'"
      by (auto simp: bind_eq_Some_conv)
    have h1: "host_resident s1 w p"
    proof (cases "resident_on_cpu e")
      case True
      with s1 hr show ?thesis by simp
    next
      case False
      with s1 have "resolve_page_fault s (vaddr_to_vpn a (page_size (config s))) False = Some s1"
        by simp
      from resolve_page_fault_host_resident [OF this hr] show ?thesis .
    qed
    from access_tail_host_resident [OF tail h1] show ?thesis by simp
  qed
qed

lemma write_to_vaddr_host_resident:
  assumes run: "write_to_vaddr s a b n = Some s'" and hr: "host_resident s w p"
  shows "host_resident s' w p"
proof (cases "initialized s \<and> a \<noteq> 0 \<and> b \<noteq> 0")
  case False
  with run have "s' = s" by (auto simp: write_to_vaddr_def)
  with hr show ?thesis by simp
next
  case guard: True
  have ps: "page_size (config s) \<noteq> 0"
  proof
    assume "page_size (config s) = 0"
    with guard have "write_to_vaddr s a b n = None" by (simp add: write_to_vaddr_def)
    with run show False by simp
  qed
  show ?thesis
  proof (cases "lookup_entry (vm_page_table s) (vaddr_to_vpn a (page_size (config s)))")
    case None
    with guard ps run have "s' = s" by (simp add: write_to_vaddr_def Let_def)
    with hr show ?thesis by simp
  next
    case (Some e)
    from guard have g: "initialized s" "a \<noteq> 0" "b \<noteq> 0" by simp_all
    from run write_to_vaddr_unfold [OF g ps Some, of n] obtain s1 where
      s1: "(if \<not> resident_on_cpu e
            then resolve_page_fault s (vaddr_to_vpn a (page_size (config s))) False
            else Some s) = Some s1"
      and tail: "access_tail (\<lambda>now e. e\<lparr>is_dirty := True, access_timestamp_us := now\<rparr>)
                   (vaddr_to_vpn a (page_size (config s))) s1 = Some s'"
      by (auto simp: bind_eq_Some_conv)
    have h1: "host_resident s1 w p"
    proof (cases "resident_on_cpu e")
      case True
      with s1 hr show ?thesis by simp
    next
      case False
      with s1 have "resolve_page_fault s (vaddr_to_vpn a (page_size (config s))) False = Some s1"
        by simp
      from resolve_page_fault_host_resident [OF this hr] show ?thesis .
    qed
    from access_tail_host_resident [OF tail h1] show ?thesis by simp
  qed
qed


subsection \<open>the host loop of allocate\<close>

lemma allocate_host_pages_step:
  assumes "allocate_host_pages s vs n ps (i # is) = Some (r, s')"
    and "allocate_cpu_page (vm_allocator s) = (p, a1)" and "p \<noteq> 0"
  obtains s1 where
    "allocate_host_pages s1 vs n (ps @ [p]) is = Some (r, s')"
    "vm_allocator s1 = a1"
    "\<And>v. v \<noteq> vs + of_nat i \<Longrightarrow>
       lookup_entry (vm_page_table s1) v = lookup_entry (vm_page_table s) v"
    "initialized s1 = initialized s" "config s1 = config s" "perf s1 = perf s"
    "next_vpn s1 = next_vpn s" "vaddr_to_vpn_map s1 = vaddr_to_vpn_map s"
    "gpu_resident_pages s1 = gpu_resident_pages s" "vm_tlb s1 = vm_tlb s"
proof -
  define s1 where "s1 =
    (snd (tick ((snd (tick (s\<lparr>vm_allocator := a1\<rparr>)))
       \<lparr>vm_page_table := set_cpu_resident (vm_page_table (snd (tick (s\<lparr>vm_allocator := a1\<rparr>))))
          (vs + of_nat i) p (fst (tick (s\<lparr>vm_allocator := a1\<rparr>)))\<rparr>)))
     \<lparr>vm_page_table := update_access_time
        (vm_page_table (snd (tick ((snd (tick (s\<lparr>vm_allocator := a1\<rparr>)))
       \<lparr>vm_page_table := set_cpu_resident (vm_page_table (snd (tick (s\<lparr>vm_allocator := a1\<rparr>))))
          (vs + of_nat i) p (fst (tick (s\<lparr>vm_allocator := a1\<rparr>)))\<rparr>))))
        (vs + of_nat i)
        (fst (tick ((snd (tick (s\<lparr>vm_allocator := a1\<rparr>)))
       \<lparr>vm_page_table := set_cpu_resident (vm_page_table (snd (tick (s\<lparr>vm_allocator := a1\<rparr>))))
          (vs + of_nat i) p (fst (tick (s\<lparr>vm_allocator := a1\<rparr>)))\<rparr>))),
      vm_policy := policy_on_page_allocated
        (vm_policy (snd (tick ((snd (tick (s\<lparr>vm_allocator := a1\<rparr>)))
       \<lparr>vm_page_table := set_cpu_resident (vm_page_table (snd (tick (s\<lparr>vm_allocator := a1\<rparr>))))
          (vs + of_nat i) p (fst (tick (s\<lparr>vm_allocator := a1\<rparr>)))\<rparr>))))
        (vs + of_nat i)\<rparr>"
  from assms have a: "allocate_host_pages s1 vs n (ps @ [p]) is = Some (r, s')"
    by (simp add: s1_def Let_def split_beta)
  have b: "vm_allocator s1 = a1" "initialized s1 = initialized s" "config s1 = config s"
    "perf s1 = perf s" "next_vpn s1 = next_vpn s" "vaddr_to_vpn_map s1 = vaddr_to_vpn_map s"
    "gpu_resident_pages s1 = gpu_resident_pages s" "vm_tlb s1 = vm_tlb s"
    by (simp_all add: s1_def tick_def get_timestamp_us_def)
  have c: "\<And>v. v \<noteq> vs + of_nat i \<Longrightarrow>
       lookup_entry (vm_page_table s1) v = lookup_entry (vm_page_table s) v"
    by (simp add: s1_def tick_def get_timestamp_us_def set_cpu_resident_def
        update_access_time_def lookup_modify_entry)
  show ?thesis by (rule that [OF a b(1) c b(2-8)])
qed


lemma allocate_host_pages_fail:
  assumes "allocate_host_pages s vs n ps (i # is) = Some (r, s')"
    and "allocate_cpu_page (vm_allocator s) = (0, a1)"
  obtains a2 where "release_cpu_pages a1 ps = Some a2" "r = None"
    "s' = s\<lparr>vm_allocator := a2,
             vm_page_table := deallocate_vpn_range (vm_page_table s) vs n\<rparr>"
  using assms by (auto split: option.splits)

lemma allocate_host_pages_frame:
  "allocate_host_pages s vs n ps is = Some (r, s') \<Longrightarrow>
   initialized s' = initialized s \<and> config s' = config s \<and> perf s' = perf s \<and>
   next_vpn s' = next_vpn s \<and> vaddr_to_vpn_map s' = vaddr_to_vpn_map s \<and>
   gpu_resident_pages s' = gpu_resident_pages s \<and> vm_tlb s' = vm_tlb s"
proof (induction "is" arbitrary: s ps)
  case Nil
  then show ?case by simp
next
  case (Cons i "is")
  obtain p a1 where al: "allocate_cpu_page (vm_allocator s) = (p, a1)"
    by (cases "allocate_cpu_page (vm_allocator s)")
  show ?case
  proof (cases "p = 0")
    case True
    with al have al0: "allocate_cpu_page (vm_allocator s) = (0, a1)" by simp
    from Cons.prems al0 obtain a2 where
      "s' = s\<lparr>vm_allocator := a2,
               vm_page_table := deallocate_vpn_range (vm_page_table s) vs n\<rparr>"
      by (rule allocate_host_pages_fail)
    then show ?thesis by simp
  next
    case False
    from Cons.prems al False obtain s1 where
      rec: "allocate_host_pages s1 vs n (ps @ [p]) is = Some (r, s')" and
      fr: "initialized s1 = initialized s" "config s1 = config s" "perf s1 = perf s"
        "next_vpn s1 = next_vpn s" "vaddr_to_vpn_map s1 = vaddr_to_vpn_map s"
        "gpu_resident_pages s1 = gpu_resident_pages s" "vm_tlb s1 = vm_tlb s"
      by (rule allocate_host_pages_step)
    from Cons.IH [OF rec] fr show ?thesis by simp
  qed
qed

lemma allocate_host_pages_lookup:
  assumes "allocate_host_pages s vs n ps is = Some (r, s')"
    and "set is \<subseteq> set [0..<unat n]"
  shows "lookup_entry (vm_page_table s') v =
           (if v \<in> vpn_range vs [0..<unat n]
            then (if r = None then None else lookup_entry (vm_page_table s') v)
            else lookup_entry (vm_page_table s) v)"
  using assms
proof (induction "is" arbitrary: s ps)
  case Nil
  then show ?case by auto
next
  case (Cons i "is")
  obtain p a1 where al: "allocate_cpu_page (vm_allocator s) = (p, a1)"
    by (cases "allocate_cpu_page (vm_allocator s)")
  show ?case
  proof (cases "p = 0")
    case True
    with al have al0: "allocate_cpu_page (vm_allocator s) = (0, a1)" by simp
    from Cons.prems(1) al0 obtain a2 where "r = None"
      "s' = s\<lparr>vm_allocator := a2,
               vm_page_table := deallocate_vpn_range (vm_page_table s) vs n\<rparr>"
      by (rule allocate_host_pages_fail)
    then show ?thesis by (simp add: lookup_deallocate_vpn_range)
  next
    case False
    from Cons.prems(1) al False obtain s1 where
      rec: "allocate_host_pages s1 vs n (ps @ [p]) is = Some (r, s')" and
      lk: "\<And>v. v \<noteq> vs + of_nat i \<Longrightarrow>
             lookup_entry (vm_page_table s1) v = lookup_entry (vm_page_table s) v"
      by (rule allocate_host_pages_step) blast
    from Cons.prems(2) have sub: "set is \<subseteq> set [0..<unat n]" and
      mem: "vs + of_nat i \<in> vpn_range vs [0..<unat n]"
      by (auto simp: vpn_range_def)
    from mem have "v \<notin> vpn_range vs [0..<unat n] \<Longrightarrow>
        lookup_entry (vm_page_table s1) v = lookup_entry (vm_page_table s) v"
      by (intro lk) auto
    with Cons.IH [OF rec sub] show ?thesis by auto
  qed
qed


subsection \<open>the host slots taken and given back\<close>

definition allocator_wf :: "page_allocator \<Rightarrow> bool" where
  "allocator_wf a \<longleftrightarrow>
     0 < a_page_size a \<and> 0 < cpu_pool a \<and>
     length (cpu_page_bitmap a) * a_page_size a \<le> cpu_page_pool_size a"

definition slot_ptr :: "page_allocator \<Rightarrow> nat \<Rightarrow> host_ptr" where
  "slot_ptr a i = cpu_pool a + i * a_page_size a"

definition taken :: "page_allocator \<Rightarrow> page_allocator \<Rightarrow> nat list \<Rightarrow> bool" where
  "taken a0 a I \<longleftrightarrow>
     (\<exists>bm. a = a0\<lparr>cpu_page_bitmap := bm,
                   cpu_pages_allocated := cpu_pages_allocated a0 + of_nat (length I)\<rparr> \<and>
           length bm = length (cpu_page_bitmap a0) \<and>
           (\<forall>j < length bm. bm ! j = (cpu_page_bitmap a0 ! j \<or> j \<in> set I))) \<and>
     distinct I \<and>
     (\<forall>i \<in> set I. i < length (cpu_page_bitmap a0) \<and> \<not> cpu_page_bitmap a0 ! i)"

lemma first_free_Some: "first_free bm = Some i \<Longrightarrow> i < length bm \<and> \<not> bm ! i"
  by (induction bm arbitrary: i) (auto split: if_splits)

lemma taken_start: "taken a a []"
  unfolding taken_def
  by (auto intro!: exI [of _ "cpu_page_bitmap a"])

lemma taken_done: "taken a0 a [] \<Longrightarrow> a = a0"
  unfolding taken_def
  by (auto simp: list_eq_iff_nth_eq)

lemma taken_allocate:
  assumes wf: "allocator_wf a0" and tk: "taken a0 a I"
    and al: "allocate_cpu_page a = (p, a1)" and p: "p \<noteq> 0"
  shows "\<exists>i. p = slot_ptr a0 i \<and> taken a0 a1 (I @ [i])"
proof -
  from tk obtain bm where
    a: "a = a0\<lparr>cpu_page_bitmap := bm,
                cpu_pages_allocated := cpu_pages_allocated a0 + of_nat (length I)\<rparr>" and
    len: "length bm = length (cpu_page_bitmap a0)" and
    bits: "\<forall>j < length bm. bm ! j = (cpu_page_bitmap a0 ! j \<or> j \<in> set I)" and
    dist: "distinct I" and
    free: "\<forall>i \<in> set I. i < length (cpu_page_bitmap a0) \<and> \<not> cpu_page_bitmap a0 ! i"
    unfolding taken_def by blast
  from al p a obtain i where ff: "first_free bm = Some i"
    by (cases "first_free bm") (auto simp: allocate_cpu_page_def)
  from first_free_Some [OF ff] have i: "i < length bm" "\<not> bm ! i" by simp_all
  from al a ff have p_eq: "p = slot_ptr a0 i" and
    a1: "a1 = a0\<lparr>cpu_page_bitmap := bm[i := True],
                  cpu_pages_allocated := cpu_pages_allocated a0 + of_nat (length (I @ [i]))\<rparr>"
    by (auto simp: allocate_cpu_page_def slot_ptr_def)
  from i bits have inew: "i \<notin> set I" "\<not> cpu_page_bitmap a0 ! i" by auto
  have "taken a0 a1 (I @ [i])"
    unfolding taken_def
  proof (intro conjI exI [of _ "bm[i := True]"])
    show "a1 = a0\<lparr>cpu_page_bitmap := bm[i := True],
                   cpu_pages_allocated := cpu_pages_allocated a0 + of_nat (length (I @ [i]))\<rparr>"
      by (rule a1)
    show "length (bm[i := True]) = length (cpu_page_bitmap a0)" using len by simp
    show "\<forall>j<length (bm[i := True]).
            bm[i := True] ! j = (cpu_page_bitmap a0 ! j \<or> j \<in> set (I @ [i]))"
      using bits i by (auto simp: nth_list_update)
    show "distinct (I @ [i])" using dist inew by simp
    show "\<forall>i\<in>set (I @ [i]). i < length (cpu_page_bitmap a0) \<and> \<not> cpu_page_bitmap a0 ! i"
      using free inew i len by auto
  qed
  with p_eq show ?thesis by blast
qed

lemma taken_allocate_null:
  assumes wf: "allocator_wf a0" and tk: "taken a0 a I"
    and al: "allocate_cpu_page a = (0, a1)"
  shows "a1 = a"
proof (cases "first_free (cpu_page_bitmap a)")
  case None
  with al show ?thesis by (simp add: allocate_cpu_page_def)
next
  case (Some i)
  from tk have "cpu_pool a = cpu_pool a0" unfolding taken_def by auto
  with wf have "0 < cpu_pool a" by (simp add: allocator_wf_def)
  with al Some show ?thesis by (simp add: allocate_cpu_page_def)
qed

lemma deallocate_cpu_page_slot:
  assumes "0 < cpu_pool a" and ps: "0 < a_page_size a"
    and i: "i < length (cpu_page_bitmap a)" and bit: "cpu_page_bitmap a ! i"
    and fit: "length (cpu_page_bitmap a) * a_page_size a \<le> cpu_page_pool_size a"
  shows "deallocate_cpu_page a (cpu_pool a + i * a_page_size a) =
           Some (a\<lparr>cpu_page_bitmap := (cpu_page_bitmap a)[i := False],
                   cpu_pages_allocated := cpu_pages_allocated a - 1\<rparr>)"
proof -
  have off: "int (cpu_pool a + i * a_page_size a) - int (cpu_pool a) = int (i * a_page_size a)"
    by simp
  from i ps have "i * a_page_size a < length (cpu_page_bitmap a) * a_page_size a"
    by (rule mult_less_mono1)
  from this fit have inside: "i * a_page_size a < cpu_page_pool_size a"
    by (rule less_le_trans)
  from ps have idx: "i * a_page_size a div a_page_size a = i" by simp
  show ?thesis
    unfolding deallocate_cpu_page_def Let_def off
    using assms(1) ps i bit inside idx
    by (simp del: of_nat_mult of_nat_add)
qed

lemma taken_deallocate:
  assumes wf: "allocator_wf a0" and tk: "taken a0 a (i # I)"
  shows "\<exists>a'. deallocate_cpu_page a (slot_ptr a0 i) = Some a' \<and> taken a0 a' I"
proof -
  from tk obtain bm where
    a: "a = a0\<lparr>cpu_page_bitmap := bm,
                cpu_pages_allocated := cpu_pages_allocated a0 + of_nat (length (i # I))\<rparr>" and
    len: "length bm = length (cpu_page_bitmap a0)" and
    bits: "\<forall>j < length bm. bm ! j = (cpu_page_bitmap a0 ! j \<or> j \<in> set (i # I))" and
    dist: "distinct (i # I)" and
    free: "\<forall>k \<in> set (i # I). k < length (cpu_page_bitmap a0) \<and> \<not> cpu_page_bitmap a0 ! k"
    unfolding taken_def by blast
  from wf have ps: "0 < a_page_size a0" and base: "0 < cpu_pool a0" and
    fit: "length (cpu_page_bitmap a0) * a_page_size a0 \<le> cpu_page_pool_size a0"
    by (simp_all add: allocator_wf_def)
  from free have i: "i < length (cpu_page_bitmap a0)" "\<not> cpu_page_bitmap a0 ! i" by simp_all
  from bits i len have set_i: "bm ! i" by auto
  define a' where "a' = a0\<lparr>cpu_page_bitmap := bm[i := False],
      cpu_pages_allocated := cpu_pages_allocated a0 + of_nat (length I)\<rparr>"
  have "deallocate_cpu_page a (cpu_pool a + i * a_page_size a) =
          Some (a\<lparr>cpu_page_bitmap := (cpu_page_bitmap a)[i := False],
                  cpu_pages_allocated := cpu_pages_allocated a - 1\<rparr>)"
    using base ps i(1) set_i fit len
    by (intro deallocate_cpu_page_slot) (simp_all add: a)
  then have "deallocate_cpu_page a (slot_ptr a0 i) = Some a'"
    by (simp add: slot_ptr_def a a'_def)
  moreover have "taken a0 a' I"
    unfolding taken_def
  proof (intro conjI exI [of _ "bm[i := False]"])
    show "a' = a0\<lparr>cpu_page_bitmap := bm[i := False],
                   cpu_pages_allocated := cpu_pages_allocated a0 + of_nat (length I)\<rparr>"
      by (rule a'_def)
    show "length (bm[i := False]) = length (cpu_page_bitmap a0)" using len by simp
    show "\<forall>j<length (bm[i := False]).
            bm[i := False] ! j = (cpu_page_bitmap a0 ! j \<or> j \<in> set I)"
      using bits i dist len by (auto simp: nth_list_update)
    show "distinct I" using dist by simp
    show "\<forall>i\<in>set I. i < length (cpu_page_bitmap a0) \<and> \<not> cpu_page_bitmap a0 ! i"
      using free by simp
  qed
  ultimately show ?thesis by blast
qed

lemma taken_release:
  "allocator_wf a0 \<Longrightarrow> taken a0 a I \<Longrightarrow>
   release_cpu_pages a (map (slot_ptr a0) I) = Some a0"
proof (induction I arbitrary: a)
  case Nil
  then show ?case by (simp add: taken_done)
next
  case (Cons i I)
  from taken_deallocate [OF Cons.prems] obtain a' where
    "deallocate_cpu_page a (slot_ptr a0 i) = Some a'" "taken a0 a' I" by blast
  with Cons.IH [OF Cons.prems(1), of a'] show ?case by simp
qed

lemma allocate_host_pages_gives_back:
  "allocator_wf a0 \<Longrightarrow> taken a0 (vm_allocator s) I \<Longrightarrow>
   allocate_host_pages s vs n (map (slot_ptr a0) I) is = Some (None, s') \<Longrightarrow>
   vm_allocator s' = a0"
proof (induction "is" arbitrary: s I)
  case Nil
  then show ?case by simp
next
  case (Cons i "is")
  obtain p a1 where al: "allocate_cpu_page (vm_allocator s) = (p, a1)"
    by (cases "allocate_cpu_page (vm_allocator s)")
  show ?case
  proof (cases "p = 0")
    case True
    with al have al0: "allocate_cpu_page (vm_allocator s) = (0, a1)" by simp
    from taken_allocate_null [OF Cons.prems(1,2) al0] have a1: "a1 = vm_allocator s" .
    from Cons.prems(3) al0 obtain a2 where
      rel: "release_cpu_pages a1 (map (slot_ptr a0) I) = Some a2" and
      s': "s' = s\<lparr>vm_allocator := a2,
               vm_page_table := deallocate_vpn_range (vm_page_table s) vs n\<rparr>"
      by (rule allocate_host_pages_fail)
    from taken_release [OF Cons.prems(1,2)] rel a1 have "a2 = a0" by simp
    with s' show ?thesis by simp
  next
    case False
    from taken_allocate [OF Cons.prems(1,2) al False] obtain j where
      p: "p = slot_ptr a0 j" and tk: "taken a0 a1 (I @ [j])" by blast
    from Cons.prems(3) al False obtain s1 where
      rec: "allocate_host_pages s1 vs n (map (slot_ptr a0) I @ [p]) is = Some (None, s')" and
      a1: "vm_allocator s1 = a1"
      by (rule allocate_host_pages_step)
    from rec p have rec': "allocate_host_pages s1 vs n (map (slot_ptr a0) (I @ [j])) is
                           = Some (None, s')"
      by simp
    from tk a1 have "taken a0 (vm_allocator s1) (I @ [j])" by simp
    from Cons.IH [OF Cons.prems(1) this rec'] show ?thesis .
  qed
qed


subsection \<open>allocate keeps what was host resident\<close>

lemma set_gpu_resident_host_resident:
  "host_resident s w p \<Longrightarrow>
   host_resident (s\<lparr>vm_page_table := set_gpu_resident (vm_page_table s) v g t\<rparr>) w p"
  by (auto simp: host_resident_def set_gpu_resident_def lookup_modify_entry split: option.splits)

lemma prefetch_pages_keeps:
  "prefetch_pages s vs ps is = Some s' \<Longrightarrow>
   initialized s' = initialized s \<and> (host_resident s w p \<longrightarrow> host_resident s' w p)"
proof (induction "is" arbitrary: s)
  case Nil
  then show ?case by simp
next
  case (Cons i "is")
  obtain g a1 where al: "allocate_gpu_page (vm_allocator s) = (g, a1)"
    by (cases "allocate_gpu_page (vm_allocator s)")
  show ?case
  proof (cases "g = 0")
    case True
    with Cons.prems al have "prefetch_pages (s\<lparr>vm_allocator := a1\<rparr>) vs ps is = Some s'"
      by simp
    from Cons.IH [OF this] show ?thesis by (simp add: host_resident_def)
  next
    case False
    define s1 where "s1 = snd (tick (s\<lparr>vm_allocator := a1\<rparr>))"
    define s2 where "s2 = s1\<lparr>vm_page_table :=
        set_gpu_resident (vm_page_table s1) (vs + of_nat i) g (fst (tick (s\<lparr>vm_allocator := a1\<rparr>))),
        gpu_resident_pages := insert (vs + of_nat i) (gpu_resident_pages s1)\<rparr>"
    define s3 where "s3 = count_cpu_to_gpu
        (fst (vm_migrate_cpu_to_gpu s2 (vs + of_nat i) (ps ! i) g))
        (snd (vm_migrate_cpu_to_gpu s2 (vs + of_nat i) (ps ! i) g))"
    define s4 where "s4 = s3\<lparr>perf := (perf s3)\<lparr>page_prefetches := page_prefetches (perf s3) + 1\<rparr>\<rparr>"
    from Cons.prems al False have rec: "prefetch_pages s4 vs ps is = Some s'"
      by (simp add: s1_def s2_def s3_def s4_def Let_def split_beta split: if_splits)
    have i1: "initialized s4 = initialized s"
      by (simp add: s1_def s2_def s3_def s4_def init_simps)
    have "host_resident s w p \<Longrightarrow> host_resident s1 w p"
      by (simp add: s1_def host_resident_def tick_table)
    then have "host_resident s w p \<Longrightarrow> host_resident s2 w p"
      using set_gpu_resident_host_resident [of s1 w p "vs + of_nat i" g]
      by (simp add: s2_def host_resident_def)
    then have "host_resident s w p \<Longrightarrow> host_resident s4 w p"
      by (auto simp: s3_def s4_def res_simps split: option.splits)
    with Cons.IH [OF rec] i1 show ?thesis by simp
  qed
qed

definition allocate_finish ::
  "vmm \<Rightarrow> bool \<Rightarrow> u32 \<Rightarrow> host_ptr list option \<times> vmm \<Rightarrow> (allocate_result \<times> vmm) option" where
  "allocate_finish s pf n x =
     (case x of (pages, s1) \<Rightarrow>
        (case pages of
           None \<Rightarrow> Some (CpuPageFailed, s1)
         | Some cpu_pages \<Rightarrow>
             Option.bind
               (if pf then prefetch_pages s1 (next_vpn s) cpu_pages [0..<unat n] else Some s1)
               (\<lambda>s2. Some (Allocated (vpn_to_vaddr (next_vpn s) (page_size (config s))),
                         s2\<lparr>vaddr_to_vpn_map :=
                              AList.update (vpn_to_vaddr (next_vpn s) (page_size (config s)))
                                (next_vpn s) (vaddr_to_vpn_map s2),
                            next_vpn := next_vpn s2 + ucast n\<rparr>))))"

lemma allocate_unfold:
  "initialized s \<Longrightarrow> page_size (config s) \<noteq> 0 \<Longrightarrow>
   n = ucast (align_to_page bytes (page_size (config s)) div page_size (config s)) \<Longrightarrow>
   allocate_vpn_range (vm_page_table s) (next_vpn s) n = (True, pt) \<Longrightarrow>
   allocate s bytes pf =
     Option.bind
       (allocate_host_pages (s\<lparr>vm_page_table := pt\<rparr>) (next_vpn s) n [] [0..<unat n])
       (allocate_finish s pf n)"
  unfolding allocate_def Let_def allocate_finish_def [abs_def]
  by hypsubst simp

lemma allocate_keeps:
  assumes run: "allocate s bytes pf = Some (r, s')"
  shows "initialized s' = initialized s \<and> (host_resident s w p \<longrightarrow> host_resident s' w p)"
proof (cases "initialized s")
  case False
  with run show ?thesis by (simp add: allocate_def)
next
  case True
  have ps: "page_size (config s) \<noteq> 0"
  proof
    assume "page_size (config s) = 0"
    with True have "allocate s bytes pf = None" by (simp add: allocate_def)
    with run show False by simp
  qed
  define n where "n = (ucast (align_to_page bytes (page_size (config s)) div page_size (config s)) :: u32)"
  obtain ok pt where avr: "allocate_vpn_range (vm_page_table s) (next_vpn s) n = (ok, pt)"
    by (cases "allocate_vpn_range (vm_page_table s) (next_vpn s) n")
  then have loop: "allocate_vpn_range_loop (entries (vm_page_table s)) (next_vpn s) [0..<unat n]
                   = (ok, entries pt)"
    by (cases "allocate_vpn_range_loop (entries (vm_page_table s)) (next_vpn s) [0..<unat n]")
       (auto simp: allocate_vpn_range_def)
  have kept: "host_resident s w p \<Longrightarrow> host_resident (s\<lparr>vm_page_table := pt\<rparr>) w p"
    using allocate_vpn_range_loop_keeps [OF loop, of w]
    by (auto simp: host_resident_def lookup_entry_def split: option.splits)
  show ?thesis
  proof (cases ok)
    case False
    with True ps run avr have "s' = s\<lparr>vm_page_table := pt\<rparr>"
      by (simp add: allocate_def Let_def n_def)
    with kept True show ?thesis by simp
  next
    case ok: True
    have fresh: "w \<in> vpn_range (next_vpn s) [0..<unat n] \<Longrightarrow> \<not> host_resident s w p"
      using allocate_vpn_range_loop_fresh [of "entries (vm_page_table s)" "next_vpn s"
          "[0..<unat n]" "entries pt" w] loop ok
      by (simp add: host_resident_def lookup_entry_def)
    from avr ok have avr': "allocate_vpn_range (vm_page_table s) (next_vpn s) n = (True, pt)"
      by simp
    from run allocate_unfold [OF True ps n_def avr', of pf] obtain pages s1 where
      hl: "allocate_host_pages (s\<lparr>vm_page_table := pt\<rparr>) (next_vpn s) n [] [0..<unat n]
           = Some (pages, s1)" and
      rest: "allocate_finish s pf n (pages, s1) = Some (r, s')"
      by (auto simp: bind_eq_Some_conv)
    from allocate_host_pages_frame [OF hl] True have i1: "initialized s1" by simp
    have h1: "host_resident s w p \<Longrightarrow> host_resident s1 w p"
    proof -
      assume hr: "host_resident s w p"
      with fresh have out: "w \<notin> vpn_range (next_vpn s) [0..<unat n]" by blast
      from allocate_host_pages_lookup [OF hl, of w] out
      have "lookup_entry (vm_page_table s1) w = lookup_entry pt w" by simp
      with kept [OF hr] show ?thesis by (simp add: host_resident_def)
    qed
    show ?thesis
    proof (cases pages)
      case None
      with rest have "s' = s1" by (simp add: allocate_finish_def)
      with h1 i1 True show ?thesis by simp
    next
      case (Some cpu_pages)
      with rest obtain s2 where
        pf: "(if pf then prefetch_pages s1 (next_vpn s) cpu_pages [0..<unat n] else Some s1)
             = Some s2" and
        s': "s' = s2\<lparr>vaddr_to_vpn_map :=
                        AList.update (vpn_to_vaddr (next_vpn s) (page_size (config s)))
                          (next_vpn s) (vaddr_to_vpn_map s2),
                      next_vpn := next_vpn s2 + ucast n\<rparr>"
        by (auto simp: allocate_finish_def bind_eq_Some_conv)
      from pf have "initialized s2 = initialized s1 \<and>
                    (host_resident s1 w p \<longrightarrow> host_resident s2 w p)"
        by (cases pf) (auto dest: prefetch_pages_keeps)
      with h1 i1 True s' show ?thesis by (simp add: host_resident_def)
    qed
  qed
qed


text \<open>
  Claim C7. When \<^verbatim>\<open>allocate\<close> fails because a host slot could not be had, it has given
  back every host slot it took and erased the page numbers it reserved, and it returns the
  null pointer: the allocator (both bitmaps and both counters) is as it was before the call,
  every page number has the page table entry it had before, and the page counter, the map
  of base addresses, the residency ledger and the performance counters are unchanged.
\<close>

theorem C7_allocate_failure_restores:
  assumes wf: "allocator_wf (vm_allocator s)"
    and run: "allocate s bytes pf = Some (CpuPageFailed, s')"
  shows "result_ptr CpuPageFailed = 0 \<and>
         vm_allocator s' = vm_allocator s \<and>
         (\<forall>v. lookup_entry (vm_page_table s') v = lookup_entry (vm_page_table s) v) \<and>
         next_vpn s' = next_vpn s \<and> vaddr_to_vpn_map s' = vaddr_to_vpn_map s \<and>
         gpu_resident_pages s' = gpu_resident_pages s \<and> perf s' = perf s"
proof -
  have init: "initialized s"
  proof (rule ccontr)
    assume "\<not> initialized s"
    with run show False by (simp add: allocate_def)
  qed
  have ps: "page_size (config s) \<noteq> 0"
  proof
    assume "page_size (config s) = 0"
    with init have "allocate s bytes pf = None" by (simp add: allocate_def)
    with run show False by simp
  qed
  define n where "n = (ucast (align_to_page bytes (page_size (config s)) div page_size (config s)) :: u32)"
  obtain ok pt where avr: "allocate_vpn_range (vm_page_table s) (next_vpn s) n = (ok, pt)"
    by (cases "allocate_vpn_range (vm_page_table s) (next_vpn s) n")
  then have loop: "allocate_vpn_range_loop (entries (vm_page_table s)) (next_vpn s) [0..<unat n]
                   = (ok, entries pt)"
    by (cases "allocate_vpn_range_loop (entries (vm_page_table s)) (next_vpn s) [0..<unat n]")
       (auto simp: allocate_vpn_range_def)
  have ok: ok
  proof (rule ccontr)
    assume "\<not> ok"
    with init ps avr have "fst (the (allocate s bytes pf)) = VpnRangeFailed"
      by (simp add: allocate_def Let_def n_def)
    with run show False by simp
  qed
  with avr have avr': "allocate_vpn_range (vm_page_table s) (next_vpn s) n = (True, pt)"
    by simp
  from run allocate_unfold [OF init ps n_def avr', of pf] obtain pages s1 where
    hl: "allocate_host_pages (s\<lparr>vm_page_table := pt\<rparr>) (next_vpn s) n [] [0..<unat n]
         = Some (pages, s1)" and
    rest: "allocate_finish s pf n (pages, s1) = Some (CpuPageFailed, s')"
    by (auto simp: bind_eq_Some_conv)
  from rest have pages: "pages = None" and s': "s' = s1"
    by (auto simp: allocate_finish_def bind_eq_Some_conv split: option.splits)
  from hl pages have hl': "allocate_host_pages (s\<lparr>vm_page_table := pt\<rparr>) (next_vpn s) n
      (map (slot_ptr (vm_allocator s)) []) [0..<unat n] = Some (None, s1)"
    by simp
  have "taken (vm_allocator s) (vm_allocator (s\<lparr>vm_page_table := pt\<rparr>)) []"
    by (simp add: taken_start)
  from allocate_host_pages_gives_back [OF wf this hl']
  have alloc: "vm_allocator s1 = vm_allocator s" .
  have look: "lookup_entry (vm_page_table s1) v = lookup_entry (vm_page_table s) v" for v
  proof (cases "v \<in> vpn_range (next_vpn s) [0..<unat n]")
    case True
    from allocate_vpn_range_loop_fresh [OF _ True, of "entries (vm_page_table s)" "entries pt"]
      loop ok
    have "lookup_entry (vm_page_table s) v = None" by (simp add: lookup_entry_def)
    with allocate_host_pages_lookup [OF hl, of v] True pages show ?thesis by simp
  next
    case False
    from allocate_vpn_range_loop_outside [OF loop False]
    have "lookup_entry pt v = lookup_entry (vm_page_table s) v" by (simp add: lookup_entry_def)
    with allocate_host_pages_lookup [OF hl, of v] False show ?thesis by simp
  qed
  from allocate_host_pages_frame [OF hl] alloc look s' show ?thesis by simp
qed


subsection \<open>sequences of operations\<close>




fun keeps_pages :: "operation \<Rightarrow> bool" where
  "keeps_pages (Free vaddr) = False"
| "keeps_pages Shutdown = False"
| "keeps_pages x = True"








lemma step_keeps_host:
  assumes "initialized s" and "keeps_pages x" and "step x s = Some s'"
  shows "initialized s' \<and> (host_resident s v p \<longrightarrow> host_resident s' v p)"
proof (cases x)
  case (Initialize cfg base)
  with assms show ?thesis by (simp add: initialize_def)
next
  case (Allocate bytes pf)
  with assms obtain r where "allocate s bytes pf = Some (r, s')" by auto
  from allocate_keeps [OF this, of v p] assms(1) show ?thesis by simp
next
  case (MapToCpu a)
  with assms have r: "map_to_cpu s a = Some s'" by simp
  from map_to_cpu_initialized [OF r] map_to_cpu_host_resident [OF r, of v p] assms(1)
  show ?thesis by simp
next
  case (MapToGpu a)
  with assms have r: "map_to_gpu s a = Some s'" by simp
  from map_to_gpu_initialized [OF r] map_to_gpu_host_resident [OF r, of v p] assms(1)
  show ?thesis by simp
next
  case (PrefetchToGpu a)
  with assms have r: "map_to_gpu s a = Some s'" by (simp add: prefetch_to_gpu_def)
  from map_to_gpu_initialized [OF r] map_to_gpu_host_resident [OF r, of v p] assms(1)
  show ?thesis by simp
next
  case (TouchPage a wr)
  with assms have r: "touch_page s a wr = Some s'" by simp
  from touch_page_initialized [OF r] touch_page_host_resident [OF r, of v p] assms(1)
  show ?thesis by simp
next
  case (ReadFromVaddr a b n)
  with assms have r: "read_from_vaddr s a b n = Some s'" by simp
  from read_from_vaddr_initialized [OF r] read_from_vaddr_host_resident [OF r, of v p] assms(1)
  show ?thesis by simp
next
  case (WriteToVaddr a b n)
  with assms have r: "write_to_vaddr s a b n = Some s'" by simp
  from write_to_vaddr_initialized [OF r] write_to_vaddr_host_resident [OF r, of v p] assms(1)
  show ?thesis by simp
next
  case (ResolvePageFault u g)
  with assms have r: "resolve_page_fault s u g = Some s'" by simp
  from resolve_page_fault_initialized [OF r] resolve_page_fault_host_resident [OF r, of v p]
    assms(1)
  show ?thesis by simp
next
  case EvictPageFromGpu
  with assms have r: "evict_page_from_gpu s = Some s'" by simp
  from evict_initialized [OF r] evict_host_resident [OF r, of v p] assms(1)
  show ?thesis by simp
next
  case SyncAllMigrations
  with assms show ?thesis by (auto simp: sync_all_migrations_def)
next
  case ResetCounters
  with assms show ?thesis by (auto simp: reset_counters_def host_resident_def)
next
  case Shutdown
  with assms show ?thesis by simp
next
  case (Free a)
  with assms show ?thesis by simp
qed

text \<open>
  Claim C10. A page that is host resident at an address stays host resident at that
  address through every sequence of operations that holds neither \<^verbatim>\<open>free\<close> nor
  \<^verbatim>\<open>shutdown\<close>: allocation, mapping to either side, touching, reading, writing, fault
  resolution to either side (with the synchronous migrations) and device eviction.
\<close>

theorem C10_host_residency_kept:
  assumes "initialized s" and "list_all keeps_pages xs" and "run xs s = Some s'"
    and "host_resident s v p"
  shows "host_resident s' v p"
  using assms
proof (induction xs arbitrary: s)
  case Nil
  then show ?case by simp
next
  case (Cons x xs)
  from Cons.prems obtain s1 where st: "step x s = Some s1" and rest: "run xs s1 = Some s'"
    by (auto split: option.splits)
  from Cons.prems have kp: "keeps_pages x" "list_all keeps_pages xs" by simp_all
  from step_keeps_host [OF Cons.prems(1) kp(1) st, of v p] Cons.prems(4)
  have "initialized s1" "host_resident s1 v p" by simp_all
  from Cons.IH [OF this(1) kp(2) rest this(2)] show ?case .
qed

section \<open>Touching a page\<close>

text \<open>
  Claim C6, as the source has it. In an initialized manager whose page size is not zero,
  \<^verbatim>\<open>touch_page(vaddr, true)\<close> on a page number without an entry counts one page fault and
  changes nothing else: \<^verbatim>\<open>resolve_page_fault\<close> returns at once for a page number that
  has no entry, the second lookup misses as the first did, and no entry is made. On a page
  number with an entry, the entry is marked dirty and its access count grows by one, its
  host residency and host address stay what they were (the page is host resident after
  the call exactly when it was before), and no page fault is counted.
\<close>

theorem C6_touch_page_write:
  assumes init: "initialized s" and ps: "page_size (config s) \<noteq> 0"
  shows "(lookup_entry (vm_page_table s) (vaddr_to_vpn vaddr (page_size (config s))) = None \<longrightarrow>
            touch_page s vaddr True =
              Some (s\<lparr>perf := (perf s)\<lparr>total_page_faults := total_page_faults (perf s) + 1\<rparr>\<rparr>)) \<and>
         (\<forall>e. lookup_entry (vm_page_table s) (vaddr_to_vpn vaddr (page_size (config s))) = Some e \<longrightarrow>
            (\<exists>s' e'. touch_page s vaddr True = Some s' \<and>
               lookup_entry (vm_page_table s') (vaddr_to_vpn vaddr (page_size (config s))) = Some e' \<and>
               is_dirty e' \<and> resident_on_cpu e' = resident_on_cpu e \<and>
               cpu_address e' = cpu_address e \<and>
               access_count e' = access_count e + 1 \<and>
               total_page_faults (perf s') = total_page_faults (perf s)))"
proof (intro conjI allI impI)
  assume "lookup_entry (vm_page_table s) (vaddr_to_vpn vaddr (page_size (config s))) = None"
  from touch_page_miss [OF init ps this]
  show "touch_page s vaddr True =
          Some (s\<lparr>perf := (perf s)\<lparr>total_page_faults := total_page_faults (perf s) + 1\<rparr>\<rparr>)" .
next
  fix e
  assume e: "lookup_entry (vm_page_table s) (vaddr_to_vpn vaddr (page_size (config s))) = Some e"
  from touch_page_hit [OF init ps e, of True] e
  show "\<exists>s' e'. touch_page s vaddr True = Some s' \<and>
          lookup_entry (vm_page_table s') (vaddr_to_vpn vaddr (page_size (config s))) = Some e' \<and>
          is_dirty e' \<and> resident_on_cpu e' = resident_on_cpu e \<and>
          cpu_address e' = cpu_address e \<and>
          access_count e' = access_count e + 1 \<and>
          total_page_faults (perf s') = total_page_faults (perf s)"
    by (simp add: lookup_vm_modify_entry tick_table tick_frame vm_modify_entry_frame)
qed

section \<open>Eviction when the policy names page 0\<close>

lemma vm_migrate_gpu_to_cpu_fields:
  "vm_policy (snd (vm_migrate_gpu_to_cpu s v g p)) = vm_policy s"
  "gpu_resident_pages (snd (vm_migrate_gpu_to_cpu s v g p)) = gpu_resident_pages s"
  "vm_allocator (snd (vm_migrate_gpu_to_cpu s v g p)) = vm_allocator s"
  "vm_tlb (snd (vm_migrate_gpu_to_cpu s v g p)) = vm_tlb s"
  by (simp_all add: vm_migrate_gpu_to_cpu_def split_beta tick_def get_timestamp_us_def)

lemma count_gpu_to_cpu_fields:
  "vm_policy (count_gpu_to_cpu t s) = vm_policy s"
  "gpu_resident_pages (count_gpu_to_cpu t s) = gpu_resident_pages s"
  "vm_allocator (count_gpu_to_cpu t s) = vm_allocator s"
  "vm_tlb (count_gpu_to_cpu t s) = vm_tlb s"
  "evictions (perf (count_gpu_to_cpu t s)) = evictions (perf s)"
  by (simp_all add: count_gpu_to_cpu_def)

lemma vm_modify_entry_fields:
  "vm_policy (vm_modify_entry s v f) = vm_policy s"
  "gpu_resident_pages (vm_modify_entry s v f) = gpu_resident_pages s"
  "vm_allocator (vm_modify_entry s v f) = vm_allocator s"
  "vm_tlb (vm_modify_entry s v f) = vm_tlb s"
  by (simp_all add: vm_modify_entry_def)

lemmas evict_simps =
  split_beta bind_eq_Some_conv lookup_vm_modify_entry lookup_vm_migrate_gpu_to_cpu
  count_table vm_migrate_gpu_to_cpu_fields count_gpu_to_cpu_fields vm_modify_entry_fields
  vm_modify_entry_frame vm_migrate_frame

lemma evict_zero_policy:
  "gpu_resident_pages s \<noteq> {} \<Longrightarrow> policy_select_victim (vm_policy s) = Some (0, pol) \<Longrightarrow>
   evict_page_from_gpu s = Some s' \<Longrightarrow> vm_policy s' = pol"
  unfolding evict_page_from_gpu_def Let_def
  by (auto split: if_splits option.splits simp: evict_simps)

lemma evict_zero_entry:
  "gpu_resident_pages s \<noteq> {} \<Longrightarrow> policy_select_victim (vm_policy s) = Some (0, pol) \<Longrightarrow>
   evict_page_from_gpu s = Some s' \<Longrightarrow>
   lookup_entry (vm_page_table s') 0 = lookup_entry (vm_page_table s) 0 \<and>
   (0 \<in> gpu_resident_pages s') = (0 \<in> gpu_resident_pages s)"
  unfolding evict_page_from_gpu_def Let_def
  by (auto split: if_splits option.splits simp: evict_simps)

lemma evict_zero_nothing:
  "gpu_resident_pages s \<noteq> {} \<Longrightarrow> policy_select_victim (vm_policy s) = Some (0, pol) \<Longrightarrow>
   evict_page_from_gpu s = Some s' \<Longrightarrow> ledger_begin s (gpu_resident_pages s) = 0 \<Longrightarrow>
   s' = s\<lparr>vm_policy := pol\<rparr>"
  unfolding evict_page_from_gpu_def Let_def
  by simp

lemma evict_zero_member:
  "gpu_resident_pages s \<noteq> {} \<Longrightarrow> policy_select_victim (vm_policy s) = Some (0, pol) \<Longrightarrow>
   evict_page_from_gpu s = Some s' \<Longrightarrow> ledger_begin s (gpu_resident_pages s) \<noteq> 0 \<Longrightarrow>
   lookup_entry (vm_page_table s) (ledger_begin s (gpu_resident_pages s)) \<noteq> None \<Longrightarrow>
   ledger_begin s (gpu_resident_pages s) \<notin> gpu_resident_pages s' \<and>
   (case lookup_entry (vm_page_table s') (ledger_begin s (gpu_resident_pages s)) of
      None \<Rightarrow> False
    | Some e \<Rightarrow> \<not> resident_on_gpu e \<and> gpu_address e = 0) \<and>
   evictions (perf s') = evictions (perf s) + 1"
  unfolding evict_page_from_gpu_def Let_def
  by (auto split: if_splits option.splits simp: evict_simps)

text \<open>
  Claim C9, as the source has it. When \<^verbatim>\<open>select_victim\<close> returns 0 while the residency
  ledger is not empty, the policy is left as \<^verbatim>\<open>select_victim\<close> left it and page 0 is never
  the page evicted: its entry and its ledger membership are unchanged. The victim becomes
  \<^verbatim>\<open>*gpu_resident_pages_.begin()\<close>. When that member is page 0 itself, the second test
  \<^verbatim>\<open>victim == 0\<close> returns and nothing is evicted: page table, ledger, allocator and
  counters are unchanged. When it is another page, with an entry, that page leaves the
  ledger, its entry loses the device residency flag and the device address, and one
  eviction is counted. For LRU with a queue that is not empty, page 0 was the head of the
  queue and has been popped from it.
\<close>

theorem C9_evict_when_policy_returns_zero:
  assumes ne: "gpu_resident_pages s \<noteq> {}"
    and sel: "policy_select_victim (vm_policy s) = Some (0, pol)"
    and run: "evict_page_from_gpu s = Some s'"
  shows "vm_policy s' = pol \<and>
         lookup_entry (vm_page_table s') 0 = lookup_entry (vm_page_table s) 0 \<and>
         (0 \<in> gpu_resident_pages s') = (0 \<in> gpu_resident_pages s) \<and>
         (ledger_begin s (gpu_resident_pages s) = 0 \<longrightarrow>
            vm_page_table s' = vm_page_table s \<and>
            gpu_resident_pages s' = gpu_resident_pages s \<and>
            vm_allocator s' = vm_allocator s \<and> perf s' = perf s) \<and>
         (ledger_begin s (gpu_resident_pages s) \<noteq> 0 \<longrightarrow>
          lookup_entry (vm_page_table s) (ledger_begin s (gpu_resident_pages s)) \<noteq> None \<longrightarrow>
            ledger_begin s (gpu_resident_pages s) \<notin> gpu_resident_pages s' \<and>
            (case lookup_entry (vm_page_table s') (ledger_begin s (gpu_resident_pages s)) of
               None \<Rightarrow> False
             | Some e \<Rightarrow> \<not> resident_on_gpu e \<and> gpu_address e = 0) \<and>
            evictions (perf s') = evictions (perf s) + 1) \<and>
         (\<forall>l. vm_policy s = LRUPolicy l \<longrightarrow> lru_queue l \<noteq> [] \<longrightarrow>
            hd (lru_queue l) = 0 \<and>
            pol = LRUPolicy (l\<lparr>lru_queue := tl (lru_queue l),
                                active_pages := active_pages l - {0}\<rparr>))"
proof -
  have lru: "\<forall>l. vm_policy s = LRUPolicy l \<longrightarrow> lru_queue l \<noteq> [] \<longrightarrow>
            hd (lru_queue l) = 0 \<and>
            pol = LRUPolicy (l\<lparr>lru_queue := tl (lru_queue l),
                                active_pages := active_pages l - {0}\<rparr>)"
    using sel
    by (auto simp: policy_select_victim_def lru_select_victim_def split: list.splits)
  from evict_zero_nothing [OF ne sel run]
  have "ledger_begin s (gpu_resident_pages s) = 0 \<longrightarrow>
            vm_page_table s' = vm_page_table s \<and>
            gpu_resident_pages s' = gpu_resident_pages s \<and>
            vm_allocator s' = vm_allocator s \<and> perf s' = perf s"
    by simp
  with evict_zero_policy [OF ne sel run] evict_zero_entry [OF ne sel run]
    evict_zero_member [OF ne sel run] lru
  show ?thesis by blast
qed

section \<open>Concrete runs\<close>

text \<open>
  A manager with two pages of 65536 bytes on each side, the LRU policy, a clock that reads
  0, 1, 2, ... and a ledger whose first member is its largest; the host pool is at address
  4096.
\<close>

definition example_config :: vm_config where
  "example_config =
     \<lparr>page_size = 65536, virtual_address_space = 1048576, gpu_memory = 131072,
      cfg_tlb_size = 8, cfg_tlb_associativity = 8, replacement_policy = LRU,
      use_pinned_memory = False, use_gpu_simulator = True, enable_prefetch = True\<rparr>"

definition example_start :: vmm where
  "example_start = vmm_new \<lparr>readings = of_nat, reads = 0\<rparr> Max example_config"

lemma replicate_numeral_unfold: "replicate (numeral k) x = x # replicate (pred_numeral k) x"
  by (simp add: numeral_eq_Suc)

lemma list_update_numeral_unfold: "(x # xs)[numeral k := y] = x # xs[pred_numeral k := y]"
  by (simp add: numeral_eq_Suc)

lemmas vm_eval =
  example_config_def example_start_def vmm_new_def PerfCounters_zero_def
  initialize_def shutdown_def pt_initialize_def PageTable_new_def pa_initialize_def
  PageAllocator_new_def resize_bitmap_def tlb_initialize_def TLB_new_def LRUPolicy_new_def
  CLOCKPolicy_new_def
  allocate_def align_to_page_def vpn_to_vaddr_def vaddr_to_vpn_def allocate_vpn_range_def
  deallocate_vpn_range_def PageTableEntry_new_def
  tick_def get_timestamp_us_def allocate_cpu_page_def deallocate_cpu_page_def
  allocate_gpu_page_def deallocate_gpu_page_def gpu_base_def
  set_cpu_resident_def set_gpu_resident_def update_access_time_def modify_entry_def
  lookup_entry_def vm_modify_entry_def get_all_entries_def pages_to_free_def
  policy_on_page_allocated_def policy_on_page_access_def policy_on_page_freed_def
  policy_select_victim_def lru_on_page_allocated_def lru_on_page_access_def
  lru_on_page_freed_def lru_select_victim_def
  vm_migrate_cpu_to_gpu_def vm_migrate_gpu_to_cpu_def migrate_cpu_to_gpu_def
  migrate_gpu_to_cpu_def count_cpu_to_gpu_def count_gpu_to_cpu_def
  evict_page_from_gpu_def request_gpu_slot_def make_gpu_resident_def make_cpu_resident_def
  resolve_page_fault_def map_to_cpu_def map_to_gpu_def prefetch_to_gpu_def touch_page_def
  read_from_vaddr_def write_to_vaddr_def free_def free_page_def
  tlb_invalidate_def get_set_index_def
  Let_def upt_rec replicate_numeral_unfold list_update_numeral_unfold

text \<open>
  The states of the runs below, each reached from \<open>initialized_empty\<close> through
  \<^verbatim>\<open>allocate\<close>. In \<open>device_pool_taken\<close> the two device slots have been taken from the
  allocator directly (\<^verbatim>\<open>get_allocator()\<close> is public, and \<^verbatim>\<open>initialize\<close> gives the host
  pool the size of the device pool, so that the manager's own calls never fill the device
  pool while a host-only page is left).
\<close>

definition initialized_empty :: vmm where
  "initialized_empty = the (initialize example_start example_config 4096)"

definition one_host_page :: vmm where
  "one_host_page = the (run [Allocate 65536 False] initialized_empty)"

definition two_host_pages :: vmm where
  "two_host_pages = the (run [Allocate 131072 False] initialized_empty)"

definition one_page_on_device :: vmm where
  "one_page_on_device = the (run [Allocate 65536 True] initialized_empty)"

definition two_pages_on_device :: vmm where
  "two_pages_on_device = the (run [Allocate 131072 True] initialized_empty)"

definition two_allocations :: vmm where
  "two_allocations = the (run [Allocate 65536 False, Allocate 65536 True] initialized_empty)"

definition device_pool_taken :: vmm where
  "device_pool_taken =
     one_host_page\<lparr>vm_allocator :=
       snd (allocate_gpu_page (snd (allocate_gpu_page (vm_allocator one_host_page))))\<rparr>"


text \<open>
  Claim C1. The claim: when the device allocator returns 0 also after the eviction attempt,
  fault resolution to the device aborts, the page stays host only and the migration
  counters are untouched. In \<open>device_pool_taken\<close> page 0 is host resident, the ledger is
  empty, the counters are zero and both device slots are taken, so the allocator returns 0
  before and after \<^verbatim>\<open>evict_page_from_gpu\<close>. Neither \<^verbatim>\<open>map_to_gpu\<close> nor
  \<^verbatim>\<open>resolve_page_fault(0, true)\<close> tests the result of the second request: the migration
  runs to device address 0, the entry is marked device resident with device address 0,
  page 0 enters the ledger, and one migration of 65536 bytes and one microsecond is
  counted.
\<close>

theorem C1_device_exhaustion_not_aborted:
  "map_option (\<lambda>e. (resident_on_cpu e, resident_on_gpu e, gpu_address e))
     (lookup_entry (vm_page_table device_pool_taken) 0) = Some (True, False, 0) \<and>
   gpu_resident_pages device_pool_taken = {} \<and>
   perf device_pool_taken = PerfCounters_zero \<and>
   fst (allocate_gpu_page (vm_allocator device_pool_taken)) = 0 \<and>
   map_option (\<lambda>s'. fst (allocate_gpu_page (vm_allocator s')))
     (evict_page_from_gpu device_pool_taken) = Some 0 \<and>
   map_option (\<lambda>s'.
        (map_option (\<lambda>e. (resident_on_cpu e, resident_on_gpu e, gpu_address e))
           (lookup_entry (vm_page_table s') 0),
         gpu_resident_pages s', cpu_to_gpu_migrations (perf s'),
         total_bytes_migrated (perf s'), total_migration_time_us (perf s')))
     (map_to_gpu device_pool_taken 0) =
     Some (Some (True, True, 0), {0}, 1, 65536, 1) \<and>
   map_option (\<lambda>s'.
        (map_option (\<lambda>e. (resident_on_cpu e, resident_on_gpu e, gpu_address e))
           (lookup_entry (vm_page_table s') 0),
         gpu_resident_pages s', cpu_to_gpu_migrations (perf s'),
         total_bytes_migrated (perf s'), total_migration_time_us (perf s')))
     (resolve_page_fault device_pool_taken 0 True) =
     Some (Some (True, True, 0), {0}, 1, 65536, 1)"
  by (simp add: device_pool_taken_def one_host_page_def initialized_empty_def vm_eval)

text \<open>
  Claim C4. The claim: \<^verbatim>\<open>free(vaddr)\<close> releases the pages of that allocation and leaves
  the pages of every other live allocation alone. The source does not keep the length of
  an allocation: it counts the valid entries whose page number is at least the first page
  number of the range. With page 0 allocated at address 0 and then page 1 allocated at
  address 65536 and prefetched, that count is 2 for \<^verbatim>\<open>free(0)\<close>, which also releases
  the host slot and the device slot of page 1, takes page 1 out of the ledger and erases
  its entry, while the map of base addresses still holds 65536 for page 1.
\<close>

theorem C4_free_releases_later_allocation:
  "map_option fst (allocate initialized_empty 65536 False) = Some (Allocated 0) \<and>
   map_option fst (allocate one_host_page 65536 True) = Some (Allocated 65536) \<and>
   map_option resident_on_gpu (lookup_entry (vm_page_table two_allocations) 1) = Some True \<and>
   cpu_page_bitmap (vm_allocator two_allocations) = [True, True] \<and>
   gpu_page_bitmap (vm_allocator two_allocations) = [True, False] \<and>
   gpu_resident_pages two_allocations = {1} \<and>
   pages_to_free (vm_page_table two_allocations) 0 = 2 \<and>
   map_option (\<lambda>s'. (lookup_entry (vm_page_table s') 1,
        cpu_page_bitmap (vm_allocator s'), gpu_page_bitmap (vm_allocator s'),
        gpu_resident_pages s', vaddr_to_vpn_map s'))
     (free two_allocations 0) =
     Some (None, [False, False], [False, False], {}, [(65536, 1)])"
  by (simp add: two_allocations_def one_host_page_def initialized_empty_def vm_eval)

text \<open>
  Claim C5. The claim: both synchronous migrations return 0 when the page table has no
  live entry for the page number. \<^verbatim>\<open>migrate_cpu_to_gpu\<close> tests the entry and returns 0;
  \<^verbatim>\<open>migrate_gpu_to_cpu\<close> has no such test and returns the time between its two clock
  readings. For page 5 of an empty page table, with readings 100 and 101, the first
  returns 0 and the second returns 1; the page table is unchanged by both.
\<close>

theorem C5_migrate_gpu_to_cpu_without_entry:
  "lookup_entry (PageTable_new 65536) 5 = None \<and>
   migrate_cpu_to_gpu (PageTable_new 65536) 5 4096 gpu_base 100 101 =
     (0, PageTable_new 65536) \<and>
   migrate_gpu_to_cpu (PageTable_new 65536) 5 gpu_base 4096 100 101 =
     (1, PageTable_new 65536)"
  by (simp add: vm_eval)

text \<open>
  Claim C6 as stated has the fault of a miss resolved to the host, so that the second
  lookup finds a host resident entry. Right after \<^verbatim>\<open>initialize\<close> page 0 has no entry:
  \<^verbatim>\<open>touch_page(0, true)\<close> counts one page fault, and page 0 still has no entry.
\<close>

theorem C6_touch_page_miss_creates_nothing:
  "initialized initialized_empty \<and>
   lookup_entry (vm_page_table initialized_empty) (vaddr_to_vpn 0 65536) = None \<and>
   map_option (\<lambda>s'. (lookup_entry (vm_page_table s') (vaddr_to_vpn 0 65536),
        total_page_faults (perf s'))) (touch_page initialized_empty 0 True) =
     Some (None, 1)"
  by (simp add: initialized_empty_def vm_eval)




text \<open>
  Claim C9 as stated has a member of the ledger evicted whenever \<^verbatim>\<open>select_victim\<close>
  returns 0 and the ledger is not empty. With page 0 alone on the device the policy
  returns 0, the first member of the ledger is page 0 again, and nothing is evicted: page
  0 stays in the ledger and device resident, its device slot stays taken, and no eviction
  is counted.
\<close>

theorem C9_only_page_zero_on_device:
  "gpu_resident_pages one_page_on_device = {0} \<and>
   map_option fst (policy_select_victim (vm_policy one_page_on_device)) = Some 0 \<and>
   map_option (\<lambda>s'. (gpu_resident_pages s', evictions (perf s'),
        map_option resident_on_gpu (lookup_entry (vm_page_table s') 0),
        gpu_page_bitmap (vm_allocator s')))
     (evict_page_from_gpu one_page_on_device) =
     Some ({0}, 0, Some True, [True, False])"
  by (simp add: one_page_on_device_def initialized_empty_def vm_eval)



definition evicting_run :: "operation list" where
  "evicting_run =
     [MapToGpu 0, MapToGpu 65536, TouchPage 65536 True, EvictPageFromGpu,
      ReadFromVaddr 65536 1 4]"

text \<open>
  The statement of C6 at one allocated page: a write touch at address 100 finds the entry
  of page 0, and a write touch at address 65536 finds no entry for page 1.
\<close>

theorem C6_touch_page_write_example:
  "initialized one_host_page \<and> page_size (config one_host_page) = 65536 \<and>
   vaddr_to_vpn 100 65536 = 0 \<and>
   map_option (\<lambda>e. (resident_on_cpu e, is_dirty e, access_count e))
     (lookup_entry (vm_page_table one_host_page) 0) = Some (True, False, 1) \<and>
   (\<exists>s' e'. touch_page one_host_page 100 True = Some s' \<and>
      lookup_entry (vm_page_table s') 0 = Some e' \<and>
      is_dirty e' \<and> resident_on_cpu e' \<and> access_count e' = 2 \<and>
      total_page_faults (perf s') = 0) \<and>
   lookup_entry (vm_page_table one_host_page) 1 = None \<and>
   vaddr_to_vpn 65536 65536 = 1 \<and>
   touch_page one_host_page 65536 True =
     Some (one_host_page\<lparr>perf := (perf one_host_page)\<lparr>total_page_faults := 1\<rparr>\<rparr>)"
proof -
  have i: "initialized one_host_page" by (simp add: one_host_page_def initialized_empty_def vm_eval)
  have p: "page_size (config one_host_page) = 65536" by (simp add: one_host_page_def initialized_empty_def vm_eval)
  have v0: "vaddr_to_vpn 100 65536 = 0" by (simp add: vaddr_to_vpn_def)
  have v1: "vaddr_to_vpn 65536 65536 = 1" by (simp add: vaddr_to_vpn_def)
  have l0: "map_option (\<lambda>e. (resident_on_cpu e, is_dirty e, access_count e))
     (lookup_entry (vm_page_table one_host_page) 0) = Some (True, False, 1)"
    by (simp add: one_host_page_def initialized_empty_def vm_eval)
  have l1: "lookup_entry (vm_page_table one_host_page) 1 = None"
    by (simp add: one_host_page_def initialized_empty_def vm_eval)
  have f: "total_page_faults (perf one_host_page) = 0"
    by (simp add: one_host_page_def initialized_empty_def vm_eval)
  from p have nz: "page_size (config one_host_page) \<noteq> 0" by simp
  from l0 obtain e where e: "lookup_entry (vm_page_table one_host_page) 0 = Some e"
    "resident_on_cpu e" "access_count e = 1"
    by auto
  from C6_touch_page_write [OF i nz, of 100] e(1)
  obtain s' e' where hit: "touch_page one_host_page 100 True = Some s'"
    "lookup_entry (vm_page_table s') 0 = Some e'" "is_dirty e'"
    "resident_on_cpu e' = resident_on_cpu e" "access_count e' = access_count e + 1"
    "total_page_faults (perf s') = total_page_faults (perf one_host_page)"
    unfolding p v0 by blast
  from hit e f have a: "\<exists>s' e'. touch_page one_host_page 100 True = Some s' \<and>
      lookup_entry (vm_page_table s') 0 = Some e' \<and>
      is_dirty e' \<and> resident_on_cpu e' \<and> access_count e' = 2 \<and>
      total_page_faults (perf s') = 0"
    by simp
  from C6_touch_page_write [OF i nz, of 65536] l1
  have b: "touch_page one_host_page 65536 True =
     Some (one_host_page\<lparr>perf := (perf one_host_page)\<lparr>total_page_faults := 1\<rparr>\<rparr>)"
    unfolding p v1 f by simp
  from i p v0 l0 a l1 v1 b show ?thesis by blast
qed

text \<open>
  The statement of C7 with one of the two host slots taken: an allocation of two pages
  takes the free slot, fails at the second page and gives the slot back.
\<close>

theorem C7_allocate_failure_example:
  "allocator_wf (vm_allocator one_host_page) \<and>
   cpu_page_bitmap (vm_allocator one_host_page) = [True, False] \<and>
   map_option fst (allocate one_host_page 131072 False) = Some CpuPageFailed \<and>
   vm_allocator (snd (the (allocate one_host_page 131072 False))) =
     vm_allocator one_host_page \<and>
   lookup_entry (vm_page_table (snd (the (allocate one_host_page 131072 False)))) 1 = None \<and>
   next_vpn (snd (the (allocate one_host_page 131072 False))) = 1"
proof -
  have wf: "allocator_wf (vm_allocator one_host_page)"
    by (simp add: allocator_wf_def one_host_page_def initialized_empty_def vm_eval)
  have bm: "cpu_page_bitmap (vm_allocator one_host_page) = [True, False]"
    by (simp add: one_host_page_def initialized_empty_def vm_eval)
  have l: "lookup_entry (vm_page_table one_host_page) 1 = None"
    by (simp add: one_host_page_def initialized_empty_def vm_eval)
  have n: "next_vpn one_host_page = 1"
    by (simp add: one_host_page_def initialized_empty_def vm_eval)
  have r: "map_option fst (allocate one_host_page 131072 False) = Some CpuPageFailed"
    by (simp add: one_host_page_def initialized_empty_def vm_eval)
  then have r': "allocate one_host_page 131072 False =
      Some (CpuPageFailed, snd (the (allocate one_host_page 131072 False)))"
    by auto
  from C7_allocate_failure_restores [OF wf r'] wf bm l n r show ?thesis by simp
qed


text \<open>
  The statement of C9 with pages 0 and 1 on the device, the ledger giving page 1 first:
  the policy pops page 0, and page 1 is the page evicted.
\<close>

theorem C9_eviction_of_another_page_example:
  "0 \<in> gpu_resident_pages two_pages_on_device \<and>
   1 \<in> gpu_resident_pages two_pages_on_device \<and>
   policy_select_victim (vm_policy two_pages_on_device) =
     Some (0, LRUPolicy \<lparr>lru_queue = [1], active_pages = {1}, lru_max_pages = 65536\<rparr>) \<and>
   ledger_begin two_pages_on_device (gpu_resident_pages two_pages_on_device) = 1 \<and>
   evict_page_from_gpu two_pages_on_device \<noteq> None \<and>
   vm_policy (the (evict_page_from_gpu two_pages_on_device)) =
     LRUPolicy \<lparr>lru_queue = [1], active_pages = {1}, lru_max_pages = 65536\<rparr> \<and>
   0 \<in> gpu_resident_pages (the (evict_page_from_gpu two_pages_on_device)) \<and>
   1 \<notin> gpu_resident_pages (the (evict_page_from_gpu two_pages_on_device)) \<and>
   evictions (perf (the (evict_page_from_gpu two_pages_on_device))) = 1"
proof -
  have m: "0 \<in> gpu_resident_pages two_pages_on_device"
    "1 \<in> gpu_resident_pages two_pages_on_device"
    by (simp_all add: two_pages_on_device_def initialized_empty_def vm_eval)
  then have ne: "gpu_resident_pages two_pages_on_device \<noteq> {}" by blast
  have sel: "policy_select_victim (vm_policy two_pages_on_device) =
     Some (0, LRUPolicy \<lparr>lru_queue = [1], active_pages = {1}, lru_max_pages = 65536\<rparr>)"
    by (simp add: two_pages_on_device_def initialized_empty_def vm_eval, auto)
  have b: "ledger_begin two_pages_on_device (gpu_resident_pages two_pages_on_device) = 1"
    by (simp add: two_pages_on_device_def initialized_empty_def vm_eval)
  have l: "lookup_entry (vm_page_table two_pages_on_device) 1 \<noteq> None"
    by (simp add: two_pages_on_device_def initialized_empty_def vm_eval)
  have e: "evictions (perf two_pages_on_device) = 0"
    by (simp add: two_pages_on_device_def initialized_empty_def vm_eval)
  have d: "evict_page_from_gpu two_pages_on_device \<noteq> None"
    by (simp add: two_pages_on_device_def initialized_empty_def vm_eval)
  then have r: "evict_page_from_gpu two_pages_on_device =
      Some (the (evict_page_from_gpu two_pages_on_device))"
    by auto
  from C9_evict_when_policy_returns_zero [OF ne sel r] m b l e
  have "vm_policy (the (evict_page_from_gpu two_pages_on_device)) =
     LRUPolicy \<lparr>lru_queue = [1], active_pages = {1}, lru_max_pages = 65536\<rparr> \<and>
   0 \<in> gpu_resident_pages (the (evict_page_from_gpu two_pages_on_device)) \<and>
   1 \<notin> gpu_resident_pages (the (evict_page_from_gpu two_pages_on_device)) \<and>
   evictions (perf (the (evict_page_from_gpu two_pages_on_device))) = 1"
    by simp
  with m sel b d show ?thesis by blast
qed

text \<open>
  The statement of C10 on a run that maps pages 0 and 1 to the device, writes to page 1,
  evicts it and reads from it: page 1 stays host resident at its host address.
\<close>

theorem C10_host_residency_example:
  "initialized two_host_pages \<and>
   list_all keeps_pages evicting_run \<and>
   run evicting_run two_host_pages \<noteq> None \<and>
   host_resident two_host_pages 1 69632 \<and>
   evictions (perf (the (run evicting_run two_host_pages))) = 1 \<and>
   map_option (\<lambda>e. (resident_on_gpu e, gpu_address e))
     (lookup_entry (vm_page_table (the (run evicting_run two_host_pages))) 1) =
     Some (False, 0) \<and>
   host_resident (the (run evicting_run two_host_pages)) 1 69632"
proof -
  have i: "initialized two_host_pages" by (simp add: two_host_pages_def initialized_empty_def vm_eval)
  have a: "list_all keeps_pages evicting_run" by (simp add: evicting_run_def)
  have h: "host_resident two_host_pages 1 69632"
    by (simp add: host_resident_def two_host_pages_def initialized_empty_def vm_eval)
  have c: "run evicting_run two_host_pages \<noteq> None \<and>
   evictions (perf (the (run evicting_run two_host_pages))) = 1 \<and>
   map_option (\<lambda>e. (resident_on_gpu e, gpu_address e))
     (lookup_entry (vm_page_table (the (run evicting_run two_host_pages))) 1) =
     Some (False, 0)"
    by (simp add: evicting_run_def two_host_pages_def initialized_empty_def vm_eval)
  then have r: "run evicting_run two_host_pages = Some (the (run evicting_run two_host_pages))"
    by auto
  from C10_host_residency_kept [OF i a r h] i a h c show ?thesis by blast
qed

section \<open>The claims about the replacement policies\<close>

text \<open>
  Claim C2. The claim: when the hand of \<^verbatim>\<open>CLOCKPolicy::select_victim\<close> finds an entry
  with a clear reference bit, the page of that entry is returned and that same entry leaves
  the pool, the hand resting on the next position. The source advances the hand before it
  erases, so it erases the entry after the victim. With pages 0, 1 and 2 allocated, the
  sweep clears the three bits, comes back to page 0 and returns it; the entry erased is the
  one of page 1, and page 0 stays in the pool.
\<close>

theorem C2_clock_select_victim_erases_following_entry:
  "clock_select_victim
     (clock_on_page_allocated
        (clock_on_page_allocated (clock_on_page_allocated (CLOCKPolicy_new 100) 0) 1) 2)
   = Some (0, \<lparr>clock_hand_vec = [\<lparr>ce_vpn = 0, reference_bit = False\<rparr>,
                                  \<lparr>ce_vpn = 2, reference_bit = False\<rparr>],
               hand_pos = 1, clock_max_pages = 100\<rparr>)"
  by (simp add: clock_select_victim_def clock_on_page_allocated_def CLOCKPolicy_new_def
      erase_at_def)

text \<open>
  Claim C3. The claim: for the LRU policy, after \<^verbatim>\<open>on_page_allocated(0)\<close>,
  \<^verbatim>\<open>on_page_allocated(1)\<close> and \<^verbatim>\<open>on_page_access(0)\<close>, \<^verbatim>\<open>select_victim()\<close> returns
  page 1. In the source \<^verbatim>\<open>on_page_access\<close> changes nothing, and the victim is page 0,
  the head of the queue.
\<close>

theorem C3_lru_access_does_not_signal_recency:
  "fst (lru_select_victim
         (lru_on_page_access
            (lru_on_page_allocated (lru_on_page_allocated (LRUPolicy_new 100) 0) 1) 0)) = 0"
  by (simp add: lru_select_victim_def lru_on_page_access_def lru_on_page_allocated_def
      LRUPolicy_new_def)

end
